theory Spec2Isabelle
  imports Main
begin

section \<open>Python values and exceptions\<close>

text \<open>
  What \<open>json.load\<close> can return: \<open>None\<close>, a bool, an int, a float (mantissa and decimal
  exponent), a string, a list, or a dict (its items in order).
\<close>

datatype pyval =
    PNone
  | PBool bool
  | PInt int
  | PFloat int int
  | PStr string
  | PList "pyval list"
  | PDict "(string \<times> pyval) list"

text \<open>
  The exceptions that occur, all subclasses of \<open>Exception\<close>, each with its message.
\<close>

datatype exc =
    OSError string
  | FileExistsError string
  | NotADirectoryError string
  | PermissionError string
  | JSONDecodeError string
  | UnicodeDecodeError string
  | AttributeError string
  | TypeError string

fun str_exc :: "exc \<Rightarrow> string" where
  "str_exc (OSError m) = m"
| "str_exc (FileExistsError m) = m"
| "str_exc (NotADirectoryError m) = m"
| "str_exc (PermissionError m) = m"
| "str_exc (JSONDecodeError m) = m"
| "str_exc (UnicodeDecodeError m) = m"
| "str_exc (AttributeError m) = m"
| "str_exc (TypeError m) = m"

text \<open>Sequencing of statements that may raise: the first exception ends the block.\<close>

definition and_then :: "exc + 'a \<Rightarrow> ('a \<Rightarrow> exc + 'b) \<Rightarrow> exc + 'b" where
  "and_then r k = (case r of Inl e \<Rightarrow> Inl e | Inr v \<Rightarrow> k v)"

text \<open>
  \<open>obj.get(key, default)\<close>: defined on a dict only; every other value has no attribute
  \<open>get\<close>.
\<close>

definition py_get :: "pyval \<Rightarrow> string \<Rightarrow> pyval \<Rightarrow> exc + pyval" where
  "py_get obj key dflt =
     (case obj of
        PDict kvs \<Rightarrow> Inr (case map_of kvs key of Some v \<Rightarrow> v | None \<Rightarrow> dflt)
      | _ \<Rightarrow> Inl (AttributeError ''object has no attribute get''))"

section \<open>Frames and the capture worker (class VideoThread)\<close>

text \<open>
  A decoded frame is an opaque raster: rows of pixels, each pixel a BGR triple of bytes.
  The image handed to the preview is the same raster with every pixel's channels reversed
  (\<open>cv2.cvtColor(frame, cv2.COLOR_BGR2RGB)\<close>) together with its geometry. What
  \<open>cap.read()\<close> delivers as a frame has at least one row and one column.
\<close>

type_synonym pixel = "nat \<times> nat \<times> nat"
type_synonym frame = "pixel list list"

record qimage =
  pixels :: frame
  width :: nat
  height :: nat
  bytes_per_line :: nat

definition cvtColor_BGR2RGB :: "frame \<Rightarrow> frame" where
  "cvtColor_BGR2RGB f = map (map (\<lambda>(b, g, r). (r, g, b))) f"

definition to_qimage :: "frame \<Rightarrow> qimage" where
  "to_qimage f =
     (let rgb_image = cvtColor_BGR2RGB f;
          h = length rgb_image;
          w = (case rgb_image of [] \<Rightarrow> 0 | row # _ \<Rightarrow> length row);
          ch = 3
      in \<lparr>pixels = rgb_image, width = w, height = h, bytes_per_line = ch * w\<rparr>)"

text \<open>
  The life of a \<open>QThread\<close>: constructed, inside \<open>run\<close>, or returned from \<open>run\<close>.
\<close>

datatype phase = Created | Running | Stopped

text \<open>
  The fields of a \<open>VideoThread\<close>. \<open>raw_frame\<close> starts as the class attribute \<open>None\<close>;
  \<open>emitted\<close> is the sequence of \<open>frame_received\<close> signals sent so far; \<open>cap_open\<close> says
  whether the \<open>cv2.VideoCapture\<close> handle made by \<open>run\<close> is held; \<open>reads\<close> counts the calls
  of \<open>cap.read()\<close>.
\<close>

record vthread =
  url :: pyval
  running :: bool
  raw_frame :: "frame option"
  emitted :: "qimage list"
  phase :: phase
  cap_open :: bool
  reads :: nat

definition VideoThread :: "pyval \<Rightarrow> vthread" where
  "VideoThread u =
     \<lparr>url = u, running = True, raw_frame = None, emitted = [], phase = Created,
      cap_open = False, reads = 0\<rparr>"

text \<open>
  \<open>QThread.start\<close>: \<open>run\<close> is entered and opens the capture handle. Starting a thread that
  is not freshly constructed does nothing.
\<close>

definition start :: "vthread \<Rightarrow> vthread" where
  "start vt = (if phase vt = Created then vt\<lparr>phase := Running, cap_open := True\<rparr> else vt)"

text \<open>
  One pass through the body of \<open>while self.running\<close>, given what \<open>cap.read()\<close> returned:
  \<open>Some frame\<close> for \<open>(True, frame)\<close>, \<open>None\<close> for \<open>(False, None)\<close>.
\<close>

definition loop_body :: "frame option \<Rightarrow> vthread \<Rightarrow> vthread" where
  "loop_body r vt =
     (let vt1 = vt\<lparr>reads := Suc (reads vt)\<rparr>
      in case r of
           Some frame \<Rightarrow>
             vt1\<lparr>raw_frame := Some frame, emitted := emitted vt1 @ [to_qimage frame]\<rparr>
         | None \<Rightarrow> vt1)"

text \<open>Leaving the loop: \<open>cap.release()\<close>, and \<open>run\<close> returns.\<close>

definition release :: "vthread \<Rightarrow> vthread" where
  "release vt = vt\<lparr>cap_open := False, phase := Stopped\<rparr>"

text \<open>
  The acquisition loop of \<open>run\<close>, driven by the results of the successive \<open>cap.read()\<close>
  calls. The flag \<open>running\<close> is tested at the head of every pass. The loop has no exit of
  its own, so when the supplied reads are used up with the flag still set, the worker is
  still in the loop (\<open>phase = Running\<close>).
\<close>

fun run_loop :: "frame option list \<Rightarrow> vthread \<Rightarrow> vthread" where
  "run_loop rs vt =
     (if \<not> running vt then release vt
      else case rs of
             [] \<Rightarrow> vt
           | r # rs' \<Rightarrow> run_loop rs' (loop_body r vt))"

definition run :: "frame option list \<Rightarrow> vthread \<Rightarrow> vthread" where
  "run rs vt = (if phase vt = Running then run_loop rs vt else vt)"

text \<open>
  Where the worker is at the moment another thread clears its flag: about to test the flag
  at the head of the loop; past the test and inside a pass whose \<open>cap.read()\<close> returns the
  given result; or inside a pass whose \<open>cap.read()\<close> does not return, as a read from a
  network stream that has gone silent may do.
\<close>

datatype in_flight = At_head | Reading "frame option" | Reading_forever

text \<open>
  \<open>stop\<close>, called from the GUI thread: clear the flag, then \<open>wait()\<close>, which has no time
  limit and returns when \<open>run\<close> has returned. The worker finishes the pass it is in, if it
  is in one, and goes on with its loop; \<open>rs\<close> are the results of the reads that the device
  would deliver after that. The result \<open>None\<close> says that \<open>wait()\<close>, and with it \<open>stop\<close>,
  never returns. \<open>wait()\<close> on a thread that is not inside \<open>run\<close> returns at once.
\<close>

definition stop :: "in_flight \<Rightarrow> frame option list \<Rightarrow> vthread \<Rightarrow> vthread option" where
  "stop pos rs vt =
     (let vt1 = vt\<lparr>running := False\<rparr>
      in if phase vt1 \<noteq> Running then Some vt1
         else case pos of
                At_head \<Rightarrow> Some (run_loop rs vt1)
              | Reading r \<Rightarrow> Some (run_loop rs (loop_body r vt1))
              | Reading_forever \<Rightarrow> None)"

section \<open>Clock and time formatting\<close>

text \<open>
  A reading of \<open>datetime.now()\<close> (the microseconds play no part). Readings are valid
  calendar values: \<open>datetime\<close> admits the years 1 to 9999.
\<close>

record datetime =
  year :: nat
  month :: nat
  day :: nat
  hour :: nat
  minute :: nat
  second :: nat

definition valid_datetime :: "datetime \<Rightarrow> bool" where
  "valid_datetime d =
     (1 \<le> year d \<and> year d \<le> 9999 \<and> 1 \<le> month d \<and> month d \<le> 12 \<and>
      1 \<le> day d \<and> day d \<le> 31 \<and> hour d < 24 \<and> minute d < 60 \<and> second d < 60)"

definition digit_char :: "nat \<Rightarrow> char" where
  "digit_char n = ''0123456789'' ! (n mod 10)"

fun decimal :: "nat \<Rightarrow> string" where
  "decimal n = (if n < 10 then [digit_char n] else decimal (n div 10) @ [digit_char n])"

definition zero_pad :: "nat \<Rightarrow> nat \<Rightarrow> string" where
  "zero_pad w n = replicate (w - length (decimal n)) (CHR ''0'') @ decimal n"

text \<open>
  The directives of \<open>strftime\<close> that the program uses, zero-padded decimal fields;
  \<open>%%\<close> is a percent sign and any other directive is left as it is written.
\<close>

definition directive :: "char \<Rightarrow> datetime \<Rightarrow> string" where
  "directive c d =
     (if c = CHR ''Y'' then zero_pad 4 (year d)
      else if c = CHR ''m'' then zero_pad 2 (month d)
      else if c = CHR ''d'' then zero_pad 2 (day d)
      else if c = CHR ''H'' then zero_pad 2 (hour d)
      else if c = CHR ''M'' then zero_pad 2 (minute d)
      else if c = CHR ''S'' then zero_pad 2 (second d)
      else if c = CHR ''%'' then ''%''
      else [CHR ''%'', c])"

fun strftime :: "datetime \<Rightarrow> string \<Rightarrow> string" where
  "strftime d [] = []"
| "strftime d [c] = [c]"
| "strftime d (c # x # xs) =
     (if c = CHR ''%'' then directive x d @ strftime d xs else c # strftime d (x # xs))"

section \<open>Files, dialogs and the window (class CameraApp)\<close>

datatype icon = Information | Warning

text \<open>
  The four literals of the dialogs are Thai text; they are named here rather than spelled.
  \<open>Text_saved\<close> is the literal that ends in a colon and two newlines.
\<close>

datatype literal = Title_success | Title_not_found | Text_saved | Text_cannot_save

record dialog =
  icon :: icon
  window_title :: literal
  text_literal :: literal
  text_rest :: string

text \<open>
  The world outside the program that \<open>capture_images\<close> acts on. A place in the file system
  is the list of names that leads to it from the root. The world holds the working
  directory of the process, the directories that exist, the regular files with their
  content, the directories in which the process may not make a new entry (no permission, a
  read-only file system), the calls of \<open>cv2.imwrite\<close> made so far, each with the path it
  was given and the place of the file it wrote, if it wrote one, and the dialogs shown so
  far.
\<close>

record world =
  cwd :: "string list"
  dirs :: "string list set"
  files :: "string list \<rightharpoonup> frame"
  refuses :: "string list set"
  imwrites :: "(string \<times> string list option) list"
  dialogs :: "dialog list"

text \<open>The names of a path, which are separated by slashes.\<close>

fun split_path :: "string \<Rightarrow> string list" where
  "split_path [] = [[]]"
| "split_path (c # cs) =
     (if c = CHR ''/'' then [] # split_path cs
      else case split_path cs of
             [] \<Rightarrow> [[c]]
           | x # xs \<Rightarrow> (c # x) # xs)"

definition start_dir :: "world \<Rightarrow> string \<Rightarrow> string list" where
  "start_dir w p = (if take 1 p = ''/'' then [] else cwd w)"

text \<open>
  Following directory names from a directory: an empty name and a dot stay, two dots go to
  the directory above (the root is above itself), and any other name must be a directory
  that exists.
\<close>

fun resolve_dir :: "string list set \<Rightarrow> string list \<Rightarrow> string list \<Rightarrow> string list option" where
  "resolve_dir ds cur [] = Some cur"
| "resolve_dir ds cur (c # cs) =
     (if c = [] \<or> c = ''.'' then resolve_dir ds cur cs
      else if c = ''..'' then resolve_dir ds (butlast cur) cs
      else if cur @ [c] \<in> ds then resolve_dir ds (cur @ [c]) cs
      else None)"

text \<open>
  The place that a path names for a file, if its directory can be reached and its last name
  can be the name of a file.
\<close>

definition locate :: "world \<Rightarrow> string \<Rightarrow> string list option" where
  "locate w p =
     (let cs = split_path p; name = last cs
      in if name = [] \<or> name = ''.'' \<or> name = ''..'' then None
         else case resolve_dir (dirs w) (start_dir w p) (butlast cs) of
                None \<Rightarrow> None
              | Some d \<Rightarrow> Some (d @ [name]))"

text \<open>
  \<open>os.makedirs(p, exist_ok=True)\<close>: make each directory on the way that is not there yet.
  It raises when a name on the way is a regular file, or when a directory has to be made
  where the process may not make one. What was made before stays.
\<close>

fun mkdirs :: "string \<Rightarrow> string list \<Rightarrow> string list \<Rightarrow> world \<Rightarrow> exc option \<times> world" where
  "mkdirs p cur [] w = (None, w)"
| "mkdirs p cur (c # cs) w =
     (if c = [] \<or> c = ''.'' then mkdirs p cur cs w
      else if c = ''..'' then mkdirs p (butlast cur) cs w
      else if cur @ [c] \<in> dirs w then mkdirs p (cur @ [c]) cs w
      else if files w (cur @ [c]) \<noteq> None
      then (Some (if cs = [] then FileExistsError p else NotADirectoryError p), w)
      else if cur \<in> refuses w then (Some (PermissionError p), w)
      else mkdirs p (cur @ [c]) cs (w\<lparr>dirs := insert (cur @ [c]) (dirs w)\<rparr>))"

definition makedirs :: "string \<Rightarrow> world \<Rightarrow> exc option \<times> world" where
  "makedirs p w = mkdirs p (start_dir w p) (split_path p) w"

text \<open>
  Whether a file can be stored at a place: the place is not a directory, and the file is
  there already or its directory lets the process make a new entry.
\<close>

definition takes_file :: "world \<Rightarrow> string list \<Rightarrow> bool" where
  "takes_file w loc = (loc \<notin> dirs w \<and> (files w loc \<noteq> None \<or> butlast loc \<notin> refuses w))"

text \<open>
  \<open>cv2.imwrite(p, f)\<close>: it stores the image and returns \<open>True\<close>, or it stores nothing and
  returns \<open>False\<close>, as it does when the directory of the path does not exist. It does not
  raise for that.
\<close>

definition imwrite :: "string \<Rightarrow> frame \<Rightarrow> world \<Rightarrow> bool \<times> world" where
  "imwrite p f w =
     (case locate w p of
        None \<Rightarrow> (False, w\<lparr>imwrites := imwrites w @ [(p, None)]\<rparr>)
      | Some loc \<Rightarrow>
          if takes_file w loc
          then (True, w\<lparr>files := (files w)(loc \<mapsto> f),
                        imwrites := imwrites w @ [(p, Some loc)]\<rparr>)
          else (False, w\<lparr>imwrites := imwrites w @ [(p, None)]\<rparr>))"

definition exec_dialog :: "dialog \<Rightarrow> world \<Rightarrow> world" where
  "exec_dialog m w = w\<lparr>dialogs := dialogs w @ [m]\<rparr>"

text \<open>\<open>sep.join(xs)\<close>.\<close>

fun join :: "string \<Rightarrow> string list \<Rightarrow> string" where
  "join sep [] = []"
| "join sep [x] = x"
| "join sep (x # y # ys) = x @ sep @ join sep (y # ys)"

text \<open>
  The material drop-down: its items and the index of the selected one.
  \<open>currentText()\<close> is the selected item, or the empty string when there is none.
\<close>

record combo =
  items :: "string list"
  currentIndex :: nat

definition currentText :: "combo \<Rightarrow> string" where
  "currentText c = (if currentIndex c < length (items c) then items c ! currentIndex c else [])"

fun all_strs :: "pyval list \<Rightarrow> string list option" where
  "all_strs [] = Some []"
| "all_strs (PStr s # vs) = (case all_strs vs of Some ss \<Rightarrow> Some (s # ss) | None \<Rightarrow> None)"
| "all_strs (_ # vs) = None"

text \<open>
  \<open>QComboBox.addItems\<close> takes a sequence of strings; a string by itself or any other
  value is a \<open>TypeError\<close>.
\<close>

definition addItems :: "pyval \<Rightarrow> combo \<Rightarrow> exc + combo" where
  "addItems v c =
     (case v of
        PList vs \<Rightarrow>
          (case all_strs vs of
             Some ss \<Rightarrow> Inr (c\<lparr>items := items c @ ss\<rparr>)
           | None \<Rightarrow> Inl (TypeError ''addItems: unexpected type''))
      | _ \<Rightarrow> Inl (TypeError ''addItems: unexpected type''))"

record app =
  material_types :: pyval
  cameras_config :: pyval
  dropdown :: combo
  left_thread :: vthread
  right_thread :: vthread

text \<open>
  \<open>capture_images\<close>. The clock is read twice, first for the time stamp and then for the
  folder name; \<open>now1\<close> and \<open>now2\<close> are the two readings. An exception of \<open>os.makedirs\<close>
  is not handled and ends the method there. What \<open>cv2.imwrite\<close> returns is not looked at.
  The result is the exception that came out of the method, if one did, and the world
  afterwards.
\<close>

definition side_path :: "string \<Rightarrow> string \<Rightarrow> string \<Rightarrow> string \<Rightarrow> string" where
  "side_path folder_name material side timestamp =
     ''results/'' @ folder_name @ ''/'' @ material @ ''_'' @ side @ ''_'' @ timestamp @ ''.png''"

definition capture_images ::
  "datetime \<Rightarrow> datetime \<Rightarrow> app \<Rightarrow> world \<Rightarrow> exc option \<times> world" where
  "capture_images now1 now2 a w =
     (let timestamp = strftime now1 ''%Y%m%d_%H%M%S'';
          folder_name = strftime now2 ''%d_%m_%Y'';
          material = currentText (dropdown a)
      in case makedirs (''results/'' @ folder_name) w of
           (Some e, w0) \<Rightarrow> (Some e, w0)
         | (None, w0) \<Rightarrow>
             (let saved0 = [];
                  (w1, saved1) =
                    (case raw_frame (left_thread a) of
                       Some f \<Rightarrow>
                         (let left_path = side_path folder_name material ''left'' timestamp
                          in (snd (imwrite left_path f w0), saved0 @ [left_path]))
                     | None \<Rightarrow> (w0, saved0));
                  (w2, saved_files) =
                    (case raw_frame (right_thread a) of
                       Some f \<Rightarrow>
                         (let right_path = side_path folder_name material ''right'' timestamp
                          in (snd (imwrite right_path f w1), saved1 @ [right_path]))
                     | None \<Rightarrow> (w1, saved1))
              in (None,
                  if saved_files \<noteq> []
                  then exec_dialog
                         \<lparr>icon = Information, window_title = Title_success,
                          text_literal = Text_saved,
                          text_rest = join [CHR 0x0A] saved_files\<rparr> w2
                  else exec_dialog
                         \<lparr>icon = Warning, window_title = Title_not_found,
                          text_literal = Text_cannot_save, text_rest = []\<rparr> w2)))"

section \<open>Configuration loading and start-up\<close>

text \<open>
  \<open>rd filepath\<close> is what \<open>open(filepath, "r")\<close> followed by \<open>json.load(file)\<close> gives:
  the parsed value, or the exception that either of the two raised. \<open>out\<close> is the text
  printed so far, one entry per \<open>print\<close>. Each loader is a \<open>try\<close> block with an
  \<open>except Exception\<close> handler.
\<close>

definition load_material_types ::
  "(string \<Rightarrow> exc + pyval) \<Rightarrow> string \<Rightarrow> string list \<Rightarrow> exc + (pyval \<times> string list)" where
  "load_material_types rd filepath out =
     (case and_then (rd filepath) (\<lambda>data. py_get data ''materials'' (PList [])) of
        Inr v \<Rightarrow> Inr (v, out)
      | Inl e \<Rightarrow>
          Inr (PList [PStr ''unknown''],
               out @ [''Error loading material types: '' @ str_exc e]))"

definition load_camera_config ::
  "(string \<Rightarrow> exc + pyval) \<Rightarrow> string \<Rightarrow> string list \<Rightarrow> exc + (pyval \<times> string list)" where
  "load_camera_config rd filepath out =
     (case and_then (rd filepath) (\<lambda>data. Inr data) of
        Inr v \<Rightarrow> Inr (v, out)
      | Inl e \<Rightarrow>
          Inr (PDict [], out @ [''Error loading camera config: '' @ str_exc e]))"

text \<open>
  \<open>CameraApp.__init__\<close>, without the widget styling: load both files, fill the
  drop-down, take the two sources out of the camera configuration, make and start the two
  workers.
\<close>

definition init_app ::
  "(string \<Rightarrow> exc + pyval) \<Rightarrow> string list \<Rightarrow> exc + (app \<times> string list)" where
  "init_app rd out =
     and_then (load_material_types rd ''config/materials.json'' out) (\<lambda>(mats, out1).
     and_then (load_camera_config rd ''config/cameras.json'' out1) (\<lambda>(cams, out2).
     and_then (addItems mats \<lparr>items = [], currentIndex = 0\<rparr>) (\<lambda>dd.
     and_then (py_get cams ''left'' (PStr [])) (\<lambda>left_url.
     and_then (py_get cams ''right'' (PStr [])) (\<lambda>right_url.
       Inr (\<lparr>material_types = mats, cameras_config = cams, dropdown = dd,
             left_thread = start (VideoThread left_url),
             right_thread = start (VideoThread right_url)\<rparr>, out2))))))"

section \<open>Observing a run\<close>

text \<open>
  What one action added to the world, as the difference between the world \<open>w\<close> before and
  the world \<open>w'\<close> after: the paths it handed to \<open>cv2.imwrite\<close>, the places of the files it
  wrote, and the dialogs it showed.
\<close>

definition new_writes :: "world \<Rightarrow> world \<Rightarrow> string list" where
  "new_writes w w' = map fst (drop (length (imwrites w)) (imwrites w'))"

definition written_files :: "world \<Rightarrow> world \<Rightarrow> string list list" where
  "written_files w w' = List.map_filter snd (drop (length (imwrites w)) (imwrites w'))"

text \<open>The place at which \<open>cv2.imwrite\<close> stores a file for a path, if it stores one.\<close>

definition stored_at :: "world \<Rightarrow> string \<Rightarrow> string list option" where
  "stored_at w p =
     (case locate w p of
        None \<Rightarrow> None
      | Some loc \<Rightarrow> if takes_file w loc then Some loc else None)"

definition new_dialogs :: "world \<Rightarrow> world \<Rightarrow> dialog list" where
  "new_dialogs w w' = drop (length (dialogs w)) (dialogs w')"

text \<open>
  The date folder of a capture action, and the place in it of the file of a side.
\<close>

definition date_folder :: "world \<Rightarrow> string \<Rightarrow> string list" where
  "date_folder w folder_name = cwd w @ [''results'', folder_name]"

definition file_name :: "string \<Rightarrow> string \<Rightarrow> string \<Rightarrow> string" where
  "file_name material side timestamp = material @ ''_'' @ side @ ''_'' @ timestamp @ ''.png''"

text \<open>
  What can happen to a worker during its life: the loop makes one more pass, with the
  given result of \<open>cap.read()\<close>, or \<open>stop\<close> is called on it, with the worker at the given
  point of its loop. When a \<open>stop\<close> never returns, the GUI thread does nothing after it
  and the life has no later state.
\<close>

datatype happening = Pass "frame option" | Stop_call in_flight

fun lifetime :: "happening list \<Rightarrow> vthread \<Rightarrow> vthread option" where
  "lifetime [] vt = Some vt"
| "lifetime (Pass r # hs) vt = lifetime hs (run [r] vt)"
| "lifetime (Stop_call pos # hs) vt =
     (case stop pos [] vt of None \<Rightarrow> None | Some vt' \<Rightarrow> lifetime hs vt')"

text \<open>Two clock readings fall on the same calendar day.\<close>

definition same_date :: "datetime \<Rightarrow> datetime \<Rightarrow> bool" where
  "same_date d d' = (year d = year d' \<and> month d = month d' \<and> day d = day d')"

section \<open>Sample values\<close>

text \<open>Concrete inputs on which the statements below are also evaluated.\<close>

definition frameA :: frame where
  "frameA = [[(1, 2, 3)]]"

definition frameB :: frame where
  "frameB = [[(9, 8, 7), (0, 0, 0)]]"

definition morning :: datetime where
  "morning = \<lparr>year = 2025, month = 3, day = 7, hour = 9, minute = 5, second = 0\<rparr>"

definition later :: datetime where
  "later = \<lparr>year = 2025, month = 3, day = 7, hour = 9, minute = 5, second = 1\<rparr>"

text \<open>
  A world with nothing below the working directory, and the same with a regular file named
  \<open>results\<close> in the working directory.
\<close>

definition empty_world :: world where
  "empty_world =
     \<lparr>cwd = [''home'', ''op''], dirs = {[], [''home''], [''home'', ''op'']},
      files = Map.empty, refuses = {}, imwrites = [], dialogs = []\<rparr>"

definition blocked_world :: world where
  "blocked_world = empty_world\<lparr>files := [[''home'', ''op'', ''results''] \<mapsto> frameB]\<rparr>"

text \<open>
  A window whose workers have made one pass each, with the given results of the read, and
  whose drop-down holds the one given label.
\<close>

definition sample_app :: "frame option \<Rightarrow> frame option \<Rightarrow> string \<Rightarrow> app" where
  "sample_app l r label =
     \<lparr>material_types = PList [PStr label],
      cameras_config = PDict [(''left'', PStr ''rtsp://left''), (''right'', PInt 0)],
      dropdown = \<lparr>items = [label], currentIndex = 0\<rparr>,
      left_thread = run [l] (start (VideoThread (PStr ''rtsp://left''))),
      right_thread = run [r] (start (VideoThread (PInt 0)))\<rparr>"

text \<open>
  A worker that read a frame, then had a failed read, was stopped while a further read
  was failing, and is looked at again; and a window whose right worker is that one.
\<close>

definition worn_life :: "happening list" where
  "worn_life = [Pass None, Stop_call (Reading None), Pass None]"

definition worn_worker :: vthread where
  "worn_worker =
     \<lparr>url = PInt 0, running = False, raw_frame = Some frameA, emitted = [to_qimage frameA],
      phase = Stopped, cap_open = False, reads = 3\<rparr>"

definition worn_app :: "string \<Rightarrow> app" where
  "worn_app label = (sample_app None None label)\<lparr>right_thread := worn_worker\<rparr>"

text \<open>
  Configuration files: none can be opened; and a \<open>materials.json\<close> of the expected shape
  beside a \<open>cameras.json\<close> that holds a JSON array.
\<close>

definition no_files :: "string \<Rightarrow> exc + pyval" where
  "no_files filepath = Inl (OSError ''No such file or directory'')"

definition array_cameras :: "string \<Rightarrow> exc + pyval" where
  "array_cameras filepath =
     (if filepath = ''config/materials.json''
      then Inr (PDict [(''materials'', PList [PStr ''oak'', PStr ''steel''])])
      else if filepath = ''config/cameras.json''
      then Inr (PList [PStr ''rtsp://left'', PStr ''rtsp://right''])
      else Inl (OSError ''No such file or directory''))"

section \<open>Basic facts\<close>

declare run_loop.simps [simp del]

declare decimal.simps [simp del]

lemma strftime_timestamp:
  "strftime d ''%Y%m%d_%H%M%S'' =
     zero_pad 4 (year d) @ zero_pad 2 (month d) @ zero_pad 2 (day d) @ ''_'' @
     zero_pad 2 (hour d) @ zero_pad 2 (minute d) @ zero_pad 2 (second d)"
  by (simp add: directive_def)

lemma strftime_folder:
  "strftime d ''%d_%m_%Y'' =
     zero_pad 2 (day d) @ ''_'' @ zero_pad 2 (month d) @ ''_'' @ zero_pad 4 (year d)"
  by (simp add: directive_def)

declare strftime.simps [simp del]

lemma run_loop_Nil: "run_loop [] vt = (if running vt then vt else release vt)"
  by (simp add: run_loop.simps)

lemma run_loop_Cons:
  "run_loop (r # rs) vt = (if running vt then run_loop rs (loop_body r vt) else release vt)"
  by (simp add: run_loop.simps)

lemma running_loop_body: "running (loop_body r vt) = running vt"
  by (simp add: loop_body_def Let_def split: option.splits)

lemma length_decimal_2: "n < 100 \<Longrightarrow> length (decimal n) \<le> 2"
proof -
  assume n: "n < 100"
  then have "n div 10 < 10" by simp
  then have "length (decimal (n div 10)) = 1" by (subst decimal.simps) simp
  then show ?thesis by (subst decimal.simps) simp
qed

lemma length_decimal_4: "n < 10000 \<Longrightarrow> length (decimal n) \<le> 4"
proof -
  assume n: "n < 10000"
  show ?thesis
  proof (cases "n < 100")
    case True
    then show ?thesis using length_decimal_2 [of n] by simp
  next
    case False
    from n have a: "n div 100 < 100" by simp
    have "decimal n = decimal (n div 10) @ [digit_char n]"
      using False by (subst decimal.simps) simp
    moreover have "\<not> n div 10 < 10" using False by arith
    then have "decimal (n div 10) = decimal (n div 10 div 10) @ [digit_char (n div 10)]"
      by (subst decimal.simps) simp
    moreover have "n div 10 div 10 = n div 100" by (simp add: div_mult2_eq)
    ultimately show ?thesis using length_decimal_2 [OF a] by simp
  qed
qed

lemma length_zero_pad_2: "n < 100 \<Longrightarrow> length (zero_pad 2 n) = 2"
  using length_decimal_2 [of n] by (simp add: zero_pad_def)

lemma length_zero_pad_4: "n < 10000 \<Longrightarrow> length (zero_pad 4 n) = 4"
  using length_decimal_4 [of n] by (simp add: zero_pad_def)

lemma run_loop_stopped: "\<not> running vt \<Longrightarrow> run_loop rs vt = release vt"
  by (simp add: run_loop.simps)

lemma raw_frame_release: "raw_frame (release vt) = raw_frame vt"
  by (simp add: release_def)

lemma raw_frame_loop_body:
  "raw_frame (loop_body r vt) = (case r of Some f \<Rightarrow> Some f | None \<Rightarrow> raw_frame vt)"
  by (simp add: loop_body_def Let_def split: option.splits)

lemma raw_frame_run_loop_kept:
  "raw_frame vt \<noteq> None \<Longrightarrow> raw_frame (run_loop rs vt) \<noteq> None"
proof (induction rs arbitrary: vt)
  case Nil
  then show ?case by (simp add: run_loop_Nil raw_frame_release)
next
  case (Cons r rs)
  have "raw_frame (loop_body r vt) \<noteq> None"
    using Cons.prems by (simp add: raw_frame_loop_body split: option.splits)
  then have "raw_frame (run_loop rs (loop_body r vt)) \<noteq> None"
    by (rule Cons.IH)
  then show ?case
    using Cons.prems by (simp add: run_loop_Cons raw_frame_release)
qed

lemma raw_frame_run_kept: "raw_frame vt \<noteq> None \<Longrightarrow> raw_frame (run rs vt) \<noteq> None"
  using raw_frame_run_loop_kept [of vt rs] by (simp add: run_def)

lemma digit_char_digit: "digit_char n \<in> set ''0123456789''"
proof -
  have "n mod 10 < length ''0123456789''" by simp
  then show ?thesis unfolding digit_char_def by (rule nth_mem)
qed

lemma decimal_digits: "set (decimal n) \<subseteq> set ''0123456789''"
proof (induction n rule: decimal.induct)
  case (1 n)
  show ?case
  proof (cases "n < 10")
    case True
    then have "decimal n = [digit_char n]" by (subst decimal.simps) simp
    then show ?thesis using digit_char_digit [of n] by simp
  next
    case False
    then have "decimal n = decimal (n div 10) @ [digit_char n]" by (subst decimal.simps) simp
    then show ?thesis using 1 [OF False] digit_char_digit [of n] by simp
  qed
qed

lemma zero_pad_digits: "set (zero_pad k n) \<subseteq> set ''0123456789''"
  using decimal_digits [of n] by (auto simp: zero_pad_def)

lemma valid_datetime_bounds:
  "valid_datetime d \<Longrightarrow>
     year d < 10000 \<and> month d < 100 \<and> day d < 100 \<and> hour d < 100 \<and> minute d < 100
     \<and> second d < 100"
  by (simp add: valid_datetime_def)


lemma raw_frame_stop_kept:
  "stop pos rs vt = Some vt' \<Longrightarrow> raw_frame vt \<noteq> None \<Longrightarrow> raw_frame vt' \<noteq> None"
proof -
  assume s: "stop pos rs vt = Some vt'" and h: "raw_frame vt \<noteq> None"
  let ?v = "vt\<lparr>running := False\<rparr>"
  have a: "raw_frame (run_loop rs ?v) \<noteq> None"
    using h raw_frame_run_loop_kept [of ?v rs] by simp
  have b: "raw_frame (run_loop rs (loop_body r ?v)) \<noteq> None" for r
    using h raw_frame_run_loop_kept [of "loop_body r ?v" rs]
    by (simp add: raw_frame_loop_body split: option.splits)
  show ?thesis
    using s h a b by (auto simp: stop_def Let_def split: if_splits in_flight.splits)
qed

lemma raw_frame_lifetime_kept:
  "lifetime hs vt = Some vt' \<Longrightarrow> raw_frame vt \<noteq> None \<Longrightarrow> raw_frame vt' \<noteq> None"
proof (induction hs arbitrary: vt)
  case Nil
  then show ?case by simp
next
  case (Cons h hs)
  show ?case
  proof (cases h)
    case (Pass r)
    have "raw_frame (run [r] vt) \<noteq> None"
      using Cons.prems(2) by (rule raw_frame_run_kept)
    then show ?thesis using Pass Cons.IH Cons.prems(1) by simp
  next
    case (Stop_call pos)
    with Cons.prems(1) obtain v where v: "stop pos [] vt = Some v" "lifetime hs v = Some vt'"
      by (auto split: option.splits)
    have "raw_frame v \<noteq> None"
      using v(1) Cons.prems(2) by (rule raw_frame_stop_kept)
    then show ?thesis using v(2) Cons.IH by blast
  qed
qed

lemma raw_frame_run_loop_cases:
  "raw_frame (run_loop rs vt) = raw_frame vt
   \<or> (\<exists>g. Some g \<in> set rs \<and> raw_frame (run_loop rs vt) = Some g)"
proof (induction rs arbitrary: vt)
  case Nil
  then show ?case by (simp add: run_loop_Nil raw_frame_release)
next
  case (Cons r rs)
  show ?case
  proof (cases "running vt")
    case False
    then show ?thesis by (simp add: run_loop_Cons raw_frame_release)
  next
    case True
    then have e: "run_loop (r # rs) vt = run_loop rs (loop_body r vt)"
      by (simp add: run_loop_Cons)
    from Cons.IH [of "loop_body r vt"] show ?thesis
      unfolding e by (cases r) (auto simp: raw_frame_loop_body)
  qed
qed

lemma raw_frame_stop_cases:
  assumes "stop pos [] vt = Some vt'"
  shows "raw_frame vt' = raw_frame vt \<or> (\<exists>g. pos = Reading (Some g) \<and> raw_frame vt' = Some g)"
  using assms
  by (cases pos)
    (auto simp: stop_def Let_def run_loop_Nil raw_frame_release raw_frame_loop_body
      running_loop_body split: if_splits option.splits)

lemma raw_frame_lifetime_cases:
  "lifetime hs vt = Some vt' \<Longrightarrow>
   raw_frame vt' = raw_frame vt
   \<or> (\<exists>g. (Pass (Some g) \<in> set hs \<or> Stop_call (Reading (Some g)) \<in> set hs)
          \<and> raw_frame vt' = Some g)"
proof (induction hs arbitrary: vt)
  case Nil
  then show ?case by simp
next
  case (Cons h hs)
  show ?case
  proof (cases h)
    case (Pass r)
    have "raw_frame (run [r] vt) = raw_frame vt
        \<or> (\<exists>g. r = Some g \<and> raw_frame (run [r] vt) = Some g)"
      using raw_frame_run_loop_cases [of "[r]" vt] by (auto simp: run_def)
    moreover have "lifetime hs (run [r] vt) = Some vt'"
      using Cons.prems Pass by simp
    ultimately show ?thesis using Cons.IH [of "run [r] vt"] Pass by auto
  next
    case (Stop_call pos)
    with Cons.prems obtain v where v: "stop pos [] vt = Some v" "lifetime hs v = Some vt'"
      by (auto split: option.splits)
    from raw_frame_stop_cases [OF v(1)] Cons.IH [OF v(2)] Stop_call show ?thesis by auto
  qed
qed

lemma split_path_not_Nil: "split_path xs \<noteq> []"
  by (induction xs) (auto split: list.splits)

lemma split_path_plain: "CHR ''/'' \<notin> set xs \<Longrightarrow> split_path xs = [xs]"
  by (induction xs) auto

lemma split_path_sep: "split_path (xs @ CHR ''/'' # ys) = split_path xs @ split_path ys"
proof (induction xs)
  case Nil
  show ?case by simp
next
  case (Cons c xs)
  obtain x rest where x: "split_path xs = x # rest"
    using split_path_not_Nil [of xs] by (cases "split_path xs") auto
  show ?case using Cons x by simp
qed

lemma split_path_tail:
  "CHR ''/'' \<notin> set ys \<Longrightarrow>
     split_path (xs @ ys) = butlast (split_path xs) @ [last (split_path xs) @ ys]"
proof (induction xs)
  case Nil
  then show ?case by (simp add: split_path_plain)
next
  case (Cons c xs)
  obtain x rest where x: "split_path xs = x # rest"
    using split_path_not_Nil [of xs] by (cases "split_path xs") auto
  show ?case
  proof (cases "c = CHR ''/''")
    case True
    then show ?thesis using Cons x by simp
  next
    case False
    then show ?thesis using Cons x by (cases rest) auto
  qed
qed

lemma last_split_path_tail:
  "CHR ''/'' \<notin> set ys \<Longrightarrow> last (split_path (xs @ ys)) = last (split_path xs) @ ys"
  by (simp add: split_path_tail)

lemma mkdirs_keeps:
  "files (snd (mkdirs p cur cs w)) = files w
   \<and> refuses (snd (mkdirs p cur cs w)) = refuses w
   \<and> cwd (snd (mkdirs p cur cs w)) = cwd w
   \<and> imwrites (snd (mkdirs p cur cs w)) = imwrites w
   \<and> dialogs (snd (mkdirs p cur cs w)) = dialogs w"
  by (induction p cur cs w rule: mkdirs.induct) simp_all

lemma makedirs_keeps:
  "files (snd (makedirs p w)) = files w
   \<and> refuses (snd (makedirs p w)) = refuses w
   \<and> cwd (snd (makedirs p w)) = cwd w
   \<and> imwrites (snd (makedirs p w)) = imwrites w
   \<and> dialogs (snd (makedirs p w)) = dialogs w"
  unfolding makedirs_def by (rule mkdirs_keeps)

lemma folder_chars: "set (strftime d ''%d_%m_%Y'') \<subseteq> set ''0123456789_''"
proof -
  have dg: "\<And>k n. set (zero_pad k n) \<subseteq> set ''0123456789_''"
    using zero_pad_digits by fastforce
  show ?thesis
    unfolding strftime_folder set_append using dg by (simp only: Un_subset_iff) simp
qed

lemma timestamp_chars: "set (strftime d ''%Y%m%d_%H%M%S'') \<subseteq> set ''0123456789_''"
proof -
  have dg: "\<And>k n. set (zero_pad k n) \<subseteq> set ''0123456789_''"
    using zero_pad_digits by fastforce
  show ?thesis
    unfolding strftime_timestamp set_append using dg by (simp only: Un_subset_iff) simp
qed

lemma folder_plain:
  "CHR ''/'' \<notin> set (strftime d ''%d_%m_%Y'')"
  "strftime d ''%d_%m_%Y'' \<noteq> []"
  "strftime d ''%d_%m_%Y'' \<noteq> ''.''"
  "strftime d ''%d_%m_%Y'' \<noteq> ''..''"
proof -
  show "CHR ''/'' \<notin> set (strftime d ''%d_%m_%Y'')"
    using folder_chars [of d] by auto
  have u: "CHR ''_'' \<in> set (strftime d ''%d_%m_%Y'')"
    by (simp add: strftime_folder)
  show "strftime d ''%d_%m_%Y'' \<noteq> []" using u by auto
  show "strftime d ''%d_%m_%Y'' \<noteq> ''.''" using u by auto
  show "strftime d ''%d_%m_%Y'' \<noteq> ''..''" using u by auto
qed

lemma timestamp_plain: "CHR ''/'' \<notin> set (strftime d ''%Y%m%d_%H%M%S'')"
  using timestamp_chars [of d] by auto

lemma imwrite_effect:
  "imwrite p f w =
     (stored_at w p \<noteq> None,
      w\<lparr>files := (case stored_at w p of None \<Rightarrow> files w | Some loc \<Rightarrow> (files w)(loc \<mapsto> f)),
        imwrites := imwrites w @ [(p, stored_at w p)]\<rparr>)"
  by (simp add: imwrite_def stored_at_def split: option.splits)

lemma stored_at_name: "stored_at w p = Some loc \<Longrightarrow> last loc = last (split_path p)"
  by (auto simp: stored_at_def locate_def Let_def split: option.splits if_splits)

lemma locate_name: "locate w p = Some loc \<Longrightarrow> last loc = last (split_path p)"
  by (auto simp: locate_def Let_def split: option.splits if_splits)

lemma stored_at_cong:
  assumes d: "dirs w' = dirs w" and c: "cwd w' = cwd w" and r: "refuses w' = refuses w"
    and f: "\<And>loc. last loc = last (split_path p) \<Longrightarrow>
              (files w' loc \<noteq> None) = (files w loc \<noteq> None)"
  shows "stored_at w' p = stored_at w p"
proof -
  have sd: "start_dir w' p = start_dir w p"
    by (simp add: start_dir_def c)
  have l: "locate w' p = locate w p"
    by (simp only: locate_def d sd)
  show ?thesis
  proof (cases "locate w p")
    case None
    then show ?thesis using l by (simp add: stored_at_def)
  next
    case (Some loc)
    have "last loc = last (split_path p)" using Some by (rule locate_name)
    then have "takes_file w' loc = takes_file w loc"
      using f [of loc] by (simp add: takes_file_def d r)
    then show ?thesis using l Some by (simp add: stored_at_def)
  qed
qed

lemma side_path_split:
  "side_path fo m s ts = ''results'' @ CHR ''/'' # fo @ CHR ''/'' # file_name m s ts"
  by (simp add: side_path_def file_name_def)

lemma side_path_tail:
  "side_path fo m s ts = (''results/'' @ fo @ ''/'' @ m) @ (''_'' @ s @ ''_'' @ ts @ ''.png'')"
  by (simp add: side_path_def)

lemma last_split_side_path:
  assumes "CHR ''/'' \<notin> set s" "CHR ''/'' \<notin> set ts"
  shows "last (split_path (side_path fo m s ts))
       = last (split_path (''results/'' @ fo @ ''/'' @ m)) @ ''_'' @ s @ ''_'' @ ts @ ''.png''"
proof -
  have "CHR ''/'' \<notin> set (''_'' @ s @ ''_'' @ ts @ ''.png'')" using assms by simp
  then show ?thesis unfolding side_path_tail by (rule last_split_path_tail)
qed

lemma split_side_path_plain:
  assumes "CHR ''/'' \<notin> set fo" "CHR ''/'' \<notin> set m" "CHR ''/'' \<notin> set s" "CHR ''/'' \<notin> set ts"
  shows "split_path (side_path fo m s ts) = [''results'', fo, file_name m s ts]"
proof -
  have "CHR ''/'' \<notin> set (file_name m s ts)" using assms by (simp add: file_name_def)
  then show ?thesis
    unfolding side_path_split using assms(1)
    by (simp only: split_path_sep split_path_plain) (simp add: split_path_plain)
qed

lemma file_name_proper:
  "file_name m s ts \<noteq> []" "file_name m s ts \<noteq> ''.''" "file_name m s ts \<noteq> ''..''"
proof -
  have u: "CHR ''_'' \<in> set (file_name m s ts)" by (simp add: file_name_def)
  show "file_name m s ts \<noteq> []" using u by auto
  show "file_name m s ts \<noteq> ''.''" using u by auto
  show "file_name m s ts \<noteq> ''..''" using u by auto
qed

lemma locate_side_path:
  assumes "CHR ''/'' \<notin> set fo" "fo \<noteq> []" "fo \<noteq> ''.''" "fo \<noteq> ''..''"
    and "CHR ''/'' \<notin> set m" "CHR ''/'' \<notin> set s" "CHR ''/'' \<notin> set ts"
    and "cwd w @ [''results''] \<in> dirs w" "cwd w @ [''results'', fo] \<in> dirs w"
  shows "locate w (side_path fo m s ts) = Some (date_folder w fo @ [file_name m s ts])"
proof -
  have sp: "split_path (side_path fo m s ts) = [''results'', fo, file_name m s ts]"
    using assms(1,5,6,7) by (rule split_side_path_plain)
  have st: "start_dir w (side_path fo m s ts) = cwd w"
    by (simp add: start_dir_def side_path_def)
  show ?thesis
    using assms(2,3,4,8,9) file_name_proper [of m s ts]
    by (simp add: locate_def sp st Let_def date_folder_def)
qed

lemma makedirs_date_folder:
  assumes "CHR ''/'' \<notin> set fo" "fo \<noteq> []" "fo \<noteq> ''.''" "fo \<noteq> ''..''"
    and "fst (makedirs (''results/'' @ fo) w) = None"
  shows "dirs (snd (makedirs (''results/'' @ fo) w))
       = insert (cwd w @ [''results'', fo]) (insert (cwd w @ [''results'']) (dirs w))"
proof -
  have sp: "split_path (''results/'' @ fo) = [''results'', fo]"
    using assms(1) by (simp add: split_path_plain)
  have st: "start_dir w (''results/'' @ fo) = cwd w"
    by (simp add: start_dir_def)
  show ?thesis
    using assms(2-) unfolding makedirs_def sp st
    by (auto simp: insert_absorb split: if_splits)
qed

lemma side_names_differ:
  assumes "CHR ''/'' \<notin> set ts"
  shows "last (split_path (side_path fo m ''left'' ts))
       \<noteq> last (split_path (side_path fo m ''right'' ts))"
  using assms by (simp add: last_split_side_path)

lemma fst_capture_images:
  "fst (capture_images now1 now2 a w)
     = fst (makedirs (''results/'' @ strftime now2 ''%d_%m_%Y'') w)"
  by (simp add: capture_images_def Let_def split: prod.splits option.splits)

lemma capture_images_raised:
  assumes "fst (makedirs (''results/'' @ strftime now2 ''%d_%m_%Y'') w) \<noteq> None"
  shows "imwrites (snd (capture_images now1 now2 a w)) = imwrites w"
    and "dialogs (snd (capture_images now1 now2 a w)) = dialogs w"
    and "files (snd (capture_images now1 now2 a w)) = files w"
proof -
  let ?P = "''results/'' @ strftime now2 ''%d_%m_%Y''"
  obtain e w0 where mk: "makedirs ?P w = (Some e, w0)"
    using assms by (cases "makedirs ?P w") auto
  have c: "snd (capture_images now1 now2 a w) = w0"
    using mk by (simp add: capture_images_def Let_def)
  have k: "imwrites w0 = imwrites w" "dialogs w0 = dialogs w" "files w0 = files w"
    using makedirs_keeps [of ?P w] mk by simp_all
  show "imwrites (snd (capture_images now1 now2 a w)) = imwrites w"
    and "dialogs (snd (capture_images now1 now2 a w)) = dialogs w"
    and "files (snd (capture_images now1 now2 a w)) = files w"
    using c k by simp_all
qed

lemma capture_images_returned:
  fixes now1 now2 a w
  defines "fo \<equiv> strftime now2 ''%d_%m_%Y''"
    and "ts \<equiv> strftime now1 ''%Y%m%d_%H%M%S''"
    and "m \<equiv> currentText (dropdown a)"
  defines "w0 \<equiv> snd (makedirs (''results/'' @ fo) w)"
  defines "lp \<equiv> side_path fo m ''left'' ts" and "rp \<equiv> side_path fo m ''right'' ts"
  assumes ok: "fst (makedirs (''results/'' @ fo) w) = None"
  shows "imwrites (snd (capture_images now1 now2 a w)) =
           imwrites w
           @ (case raw_frame (left_thread a) of Some f \<Rightarrow> [(lp, stored_at w0 lp)] | None \<Rightarrow> [])
           @ (case raw_frame (right_thread a) of Some f \<Rightarrow> [(rp, stored_at w0 rp)] | None \<Rightarrow> [])"
    and "dialogs (snd (capture_images now1 now2 a w)) =
           dialogs w @
           [if raw_frame (left_thread a) = None \<and> raw_frame (right_thread a) = None
            then \<lparr>icon = Warning, window_title = Title_not_found,
                  text_literal = Text_cannot_save, text_rest = []\<rparr>
            else \<lparr>icon = Information, window_title = Title_success, text_literal = Text_saved,
                  text_rest =
                    (if raw_frame (left_thread a) \<noteq> None then lp else [])
                    @ (if raw_frame (left_thread a) \<noteq> None \<and> raw_frame (right_thread a) \<noteq> None
                       then [CHR 0x0A] else [])
                    @ (if raw_frame (right_thread a) \<noteq> None then rp else [])\<rparr>]"
    and "files (snd (capture_images now1 now2 a w)) =
           (let fs1 = (case raw_frame (left_thread a) of
                         Some f \<Rightarrow> (case stored_at w0 lp of
                                      Some loc \<Rightarrow> (files w)(loc \<mapsto> f) | None \<Rightarrow> files w)
                       | None \<Rightarrow> files w)
            in case raw_frame (right_thread a) of
                 Some f \<Rightarrow> (case stored_at w0 rp of
                              Some loc \<Rightarrow> fs1(loc \<mapsto> f) | None \<Rightarrow> fs1)
               | None \<Rightarrow> fs1)"
proof -
  have mk: "makedirs (''results/'' @ fo) w = (None, w0)"
    using ok unfolding w0_def by (cases "makedirs (''results/'' @ fo) w") auto
  have k: "imwrites w0 = imwrites w" "dialogs w0 = dialogs w" "files w0 = files w"
    using makedirs_keeps [of "''results/'' @ fo" w] unfolding w0_def by simp_all
  have tsp: "CHR ''/'' \<notin> set ts" unfolding ts_def by (rule timestamp_plain)
  have nd: "last (split_path lp) \<noteq> last (split_path rp)"
    unfolding lp_def rp_def using tsp by (rule side_names_differ)
  have st: "stored_at (snd (imwrite lp f w0)) rp = stored_at w0 rp" for f
  proof (rule stored_at_cong)
    fix loc assume l: "last loc = last (split_path rp)"
    have "stored_at w0 lp \<noteq> Some loc"
      using stored_at_name [of w0 lp loc] l nd by auto
    then show "(files (snd (imwrite lp f w0)) loc \<noteq> None) = (files w0 loc \<noteq> None)"
      by (auto simp: imwrite_effect split: option.splits)
  qed (simp_all add: imwrite_effect)
  have st': "stored_at
       (w0\<lparr>files := (case stored_at w0 lp of None \<Rightarrow> files w0 | Some loc \<Rightarrow> (files w0)(loc \<mapsto> f)),
           imwrites := imwrites w @ [(lp, stored_at w0 lp)]\<rparr>) rp = stored_at w0 rp" for f
    using st [of f] unfolding imwrite_effect snd_conv k(1) .
  have mk': "makedirs (''results/'' @ fo) w = (None, w0) \<longleftrightarrow> True"
    using mk by simp
  note mk'' = mk' [simplified]
  note unf = capture_images_def Let_def fo_def [symmetric] ts_def [symmetric]
    m_def [symmetric] lp_def [symmetric] rp_def [symmetric] mk'' exec_dialog_def
    imwrite_effect k st'
  show "imwrites (snd (capture_images now1 now2 a w)) =
           imwrites w
           @ (case raw_frame (left_thread a) of Some f \<Rightarrow> [(lp, stored_at w0 lp)] | None \<Rightarrow> [])
           @ (case raw_frame (right_thread a) of Some f \<Rightarrow> [(rp, stored_at w0 rp)] | None \<Rightarrow> [])"
    by (cases "raw_frame (left_thread a)"; cases "raw_frame (right_thread a)")
      (simp_all add: unf)
  show "dialogs (snd (capture_images now1 now2 a w)) =
           dialogs w @
           [if raw_frame (left_thread a) = None \<and> raw_frame (right_thread a) = None
            then \<lparr>icon = Warning, window_title = Title_not_found,
                  text_literal = Text_cannot_save, text_rest = []\<rparr>
            else \<lparr>icon = Information, window_title = Title_success, text_literal = Text_saved,
                  text_rest =
                    (if raw_frame (left_thread a) \<noteq> None then lp else [])
                    @ (if raw_frame (left_thread a) \<noteq> None \<and> raw_frame (right_thread a) \<noteq> None
                       then [CHR 0x0A] else [])
                    @ (if raw_frame (right_thread a) \<noteq> None then rp else [])\<rparr>]"
    by (cases "raw_frame (left_thread a)"; cases "raw_frame (right_thread a)")
      (simp_all add: unf)
  show "files (snd (capture_images now1 now2 a w)) =
           (let fs1 = (case raw_frame (left_thread a) of
                         Some f \<Rightarrow> (case stored_at w0 lp of
                                      Some loc \<Rightarrow> (files w)(loc \<mapsto> f) | None \<Rightarrow> files w)
                       | None \<Rightarrow> files w)
            in case raw_frame (right_thread a) of
                 Some f \<Rightarrow> (case stored_at w0 rp of
                              Some loc \<Rightarrow> fs1(loc \<mapsto> f) | None \<Rightarrow> fs1)
               | None \<Rightarrow> fs1)"
    by (cases "raw_frame (left_thread a)"; cases "raw_frame (right_thread a)")
      (auto simp: unf split: option.splits)
qed

lemma new_writes_capture_images:
  "new_writes w (snd (capture_images now1 now2 a w)) =
     (if fst (capture_images now1 now2 a w) \<noteq> None then []
      else (case raw_frame (left_thread a) of
              Some f \<Rightarrow> [side_path (strftime now2 ''%d_%m_%Y'') (currentText (dropdown a)) ''left''
                           (strftime now1 ''%Y%m%d_%H%M%S'')]
            | None \<Rightarrow> [])
         @ (case raw_frame (right_thread a) of
              Some f \<Rightarrow> [side_path (strftime now2 ''%d_%m_%Y'') (currentText (dropdown a)) ''right''
                           (strftime now1 ''%Y%m%d_%H%M%S'')]
            | None \<Rightarrow> []))"
proof (cases "fst (makedirs (''results/'' @ strftime now2 ''%d_%m_%Y'') w)")
  case None
  then show ?thesis
    unfolding new_writes_def fst_capture_images capture_images_returned(1) [OF None]
    by (simp split: option.splits)
next
  case (Some e)
  then have "fst (makedirs (''results/'' @ strftime now2 ''%d_%m_%Y'') w) \<noteq> None" by simp
  from capture_images_raised(1) [OF this] Some show ?thesis
    unfolding new_writes_def fst_capture_images by simp
qed

lemma written_files_capture_images:
  "written_files w (snd (capture_images now1 now2 a w)) =
     (if fst (capture_images now1 now2 a w) \<noteq> None then []
      else (case raw_frame (left_thread a) of
              Some f \<Rightarrow>
                (case stored_at (snd (makedirs (''results/'' @ strftime now2 ''%d_%m_%Y'') w))
                        (side_path (strftime now2 ''%d_%m_%Y'') (currentText (dropdown a))
                           ''left'' (strftime now1 ''%Y%m%d_%H%M%S'')) of
                   Some loc \<Rightarrow> [loc] | None \<Rightarrow> [])
            | None \<Rightarrow> [])
         @ (case raw_frame (right_thread a) of
              Some f \<Rightarrow>
                (case stored_at (snd (makedirs (''results/'' @ strftime now2 ''%d_%m_%Y'') w))
                        (side_path (strftime now2 ''%d_%m_%Y'') (currentText (dropdown a))
                           ''right'' (strftime now1 ''%Y%m%d_%H%M%S'')) of
                   Some loc \<Rightarrow> [loc] | None \<Rightarrow> [])
            | None \<Rightarrow> []))"
proof (cases "fst (makedirs (''results/'' @ strftime now2 ''%d_%m_%Y'') w)")
  case None
  then show ?thesis
    unfolding written_files_def fst_capture_images capture_images_returned(1) [OF None]
    by (simp add: List.map_filter_simps split: option.splits)
next
  case (Some e)
  then have "fst (makedirs (''results/'' @ strftime now2 ''%d_%m_%Y'') w) \<noteq> None" by simp
  from capture_images_raised(1) [OF this] Some show ?thesis
    unfolding written_files_def fst_capture_images by (simp add: List.map_filter_simps)
qed

lemma new_dialogs_capture_images:
  "new_dialogs w (snd (capture_images now1 now2 a w)) =
     (if fst (capture_images now1 now2 a w) \<noteq> None then []
      else [if raw_frame (left_thread a) = None \<and> raw_frame (right_thread a) = None
            then \<lparr>icon = Warning, window_title = Title_not_found,
                  text_literal = Text_cannot_save, text_rest = []\<rparr>
            else \<lparr>icon = Information, window_title = Title_success, text_literal = Text_saved,
                  text_rest =
                    (if raw_frame (left_thread a) \<noteq> None
                     then side_path (strftime now2 ''%d_%m_%Y'') (currentText (dropdown a))
                            ''left'' (strftime now1 ''%Y%m%d_%H%M%S'')
                     else [])
                    @ (if raw_frame (left_thread a) \<noteq> None \<and> raw_frame (right_thread a) \<noteq> None
                       then [CHR 0x0A] else [])
                    @ (if raw_frame (right_thread a) \<noteq> None
                       then side_path (strftime now2 ''%d_%m_%Y'') (currentText (dropdown a))
                              ''right'' (strftime now1 ''%Y%m%d_%H%M%S'')
                       else [])\<rparr>])"
proof (cases "fst (makedirs (''results/'' @ strftime now2 ''%d_%m_%Y'') w)")
  case None
  show ?thesis
    unfolding new_dialogs_def fst_capture_images capture_images_returned(2) [OF None]
    using None by simp
next
  case (Some e)
  then have "fst (makedirs (''results/'' @ strftime now2 ''%d_%m_%Y'') w) \<noteq> None" by simp
  from capture_images_raised(2) [OF this] Some show ?thesis
    unfolding new_dialogs_def fst_capture_images by simp
qed

lemma stored_at_plain:
  fixes now1 now2 a w s
  defines "fo \<equiv> strftime now2 ''%d_%m_%Y''"
    and "ts \<equiv> strftime now1 ''%Y%m%d_%H%M%S''"
  assumes ok: "fst (makedirs (''results/'' @ fo) w) = None"
    and plain: "CHR ''/'' \<notin> set m" "CHR ''/'' \<notin> set s"
  shows "stored_at (snd (makedirs (''results/'' @ fo) w)) (side_path fo m s ts) =
           (if takes_file w (date_folder w fo @ [file_name m s ts])
            then Some (date_folder w fo @ [file_name m s ts]) else None)"
proof -
  define w0 where "w0 = snd (makedirs (''results/'' @ fo) w)"
  let ?loc = "date_folder w fo @ [file_name m s ts]"
  note fp = folder_plain [of now2, folded fo_def]
  have d: "dirs w0 = insert (cwd w @ [''results'', fo]) (insert (cwd w @ [''results'']) (dirs w))"
    unfolding w0_def using fp ok by (rule makedirs_date_folder)
  have k: "files w0 = files w" "refuses w0 = refuses w" "cwd w0 = cwd w"
    unfolding w0_def using makedirs_keeps [of "''results/'' @ fo" w] by simp_all
  have tsp: "CHR ''/'' \<notin> set ts" unfolding ts_def by (rule timestamp_plain)
  have "locate w0 (side_path fo m s ts) = Some (date_folder w0 fo @ [file_name m s ts])"
    using fp plain tsp by (rule locate_side_path) (simp_all add: d k)
  then have l: "locate w0 (side_path fo m s ts) = Some ?loc"
    by (simp add: date_folder_def k)
  have "?loc \<noteq> cwd w @ [''results'', fo]" "?loc \<noteq> cwd w @ [''results'']"
    by (simp_all add: date_folder_def)
  then have t: "takes_file w0 ?loc = takes_file w ?loc"
    by (simp add: takes_file_def d k)
  have "stored_at w0 (side_path fo m s ts) = (if takes_file w ?loc then Some ?loc else None)"
    using l t by (simp add: stored_at_def)
  then show ?thesis unfolding w0_def .
qed

lemma written_files_name:
  assumes "loc \<in> set (written_files w (snd (capture_images now1 now2 a w)))"
  shows "\<exists>s \<in> {''left'', ''right''}.
           last loc = last (split_path (side_path (strftime now2 ''%d_%m_%Y'')
                        (currentText (dropdown a)) s (strftime now1 ''%Y%m%d_%H%M%S'')))"
proof -
  let ?w0 = "snd (makedirs (''results/'' @ strftime now2 ''%d_%m_%Y'') w)"
  let ?p = "\<lambda>s. side_path (strftime now2 ''%d_%m_%Y'') (currentText (dropdown a)) s
              (strftime now1 ''%Y%m%d_%H%M%S'')"
  from assms have "stored_at ?w0 (?p ''left'') = Some loc \<or> stored_at ?w0 (?p ''right'') = Some loc"
    unfolding written_files_capture_images by (auto split: if_splits option.splits)
  then have "last loc = last (split_path (?p ''left'')) \<or> last loc = last (split_path (?p ''right''))"
    using stored_at_name by blast
  then show ?thesis by blast
qed

lemma files_changed_written:
  assumes "files (snd (capture_images now1 now2 a w)) loc \<noteq> files w loc"
  shows "loc \<in> set (written_files w (snd (capture_images now1 now2 a w)))"
proof (cases "fst (makedirs (''results/'' @ strftime now2 ''%d_%m_%Y'') w)")
  case None
  show ?thesis
    using assms None
    unfolding written_files_capture_images fst_capture_images capture_images_returned(3) [OF None]
    by (auto simp: Let_def split: option.splits if_splits)
next
  case (Some e)
  then have "fst (makedirs (''results/'' @ strftime now2 ''%d_%m_%Y'') w) \<noteq> None" by simp
  from capture_images_raised(3) [OF this] assms show ?thesis by simp
qed

lemma cwd_capture_images: "cwd (snd (capture_images now1 now2 a w)) = cwd w"
proof -
  have i: "cwd (snd (imwrite p f v)) = cwd v" for p f v by (simp add: imwrite_effect)
  have m: "cwd (snd (makedirs p v)) = cwd v" for p v using makedirs_keeps [of p v] by simp
  obtain e w0 where mk: "makedirs (''results/'' @ strftime now2 ''%d_%m_%Y'') w = (e, w0)"
    by (cases "makedirs (''results/'' @ strftime now2 ''%d_%m_%Y'') w")
  have w0: "cwd w0 = cwd w" using m [of "''results/'' @ strftime now2 ''%d_%m_%Y''" w] mk by simp
  have mk': "makedirs (''results/'' @ strftime now2 ''%d_%m_%Y'') w = (e, w0) \<longleftrightarrow> True"
    using mk by simp
  show ?thesis
    by (cases e; cases "raw_frame (left_thread a)"; cases "raw_frame (right_thread a)")
      (simp_all add: capture_images_def Let_def mk' [simplified] exec_dialog_def i w0)
qed

lemma timestamp_tail_eq:
  assumes "x @ ts @ ''.png'' = y @ ts' @ ''.png''" and "length ts = length ts'"
  shows "ts = ts'"
proof -
  have "(x @ ts) @ ''.png'' = (y @ ts') @ ''.png''" using assms(1) by simp
  then have "x @ ts = y @ ts'" by (simp only: append_same_eq)
  then show ?thesis using assms(2) append_eq_append_conv [of x y ts ts'] by blast
qed

lemma side_names_eq_timestamp:
  assumes "last (split_path (side_path fo m s ts)) = last (split_path (side_path fo' m' s' ts'))"
    and "s \<in> {''left'', ''right''}" "s' \<in> {''left'', ''right''}"
    and "CHR ''/'' \<notin> set ts" "CHR ''/'' \<notin> set ts'" "length ts = length ts'"
  shows "ts = ts'"
proof -
  have s: "CHR ''/'' \<notin> set s" "CHR ''/'' \<notin> set s'" using assms(2,3) by auto
  have "(last (split_path (''results/'' @ fo @ ''/'' @ m)) @ ''_'' @ s @ ''_'') @ ts @ ''.png''
      = (last (split_path (''results/'' @ fo' @ ''/'' @ m')) @ ''_'' @ s' @ ''_'') @ ts' @ ''.png''"
    using assms(1) by (simp add: last_split_side_path s assms(4,5))
  then show ?thesis using assms(6) by (rule timestamp_tail_eq)
qed

lemma timestamp_morning: "strftime morning ''%Y%m%d_%H%M%S'' = ''20250307_090500''"
  by (simp add: strftime_timestamp morning_def zero_pad_def decimal.simps digit_char_def)

lemma timestamp_later: "strftime later ''%Y%m%d_%H%M%S'' = ''20250307_090501''"
  by (simp add: strftime_timestamp later_def zero_pad_def decimal.simps digit_char_def)

lemma folder_morning: "strftime morning ''%d_%m_%Y'' = ''07_03_2025''"
  by (simp add: strftime_folder morning_def zero_pad_def decimal.simps digit_char_def)

lemma folder_later: "strftime later ''%d_%m_%Y'' = ''07_03_2025''"
  by (simp add: strftime_folder later_def zero_pad_def decimal.simps digit_char_def)

lemma raw_frame_sample_left: "raw_frame (left_thread (sample_app l r label)) = l"
  by (cases l)
    (simp_all add: sample_app_def run_def start_def VideoThread_def run_loop_Cons run_loop_Nil
      loop_body_def Let_def)

lemma raw_frame_sample_right: "raw_frame (right_thread (sample_app l r label)) = r"
  by (cases r)
    (simp_all add: sample_app_def run_def start_def VideoThread_def run_loop_Cons run_loop_Nil
      loop_body_def Let_def)

lemma currentText_sample: "currentText (dropdown (sample_app l r label)) = label"
  by (simp add: sample_app_def currentText_def)

lemmas sample_simps =
  raw_frame_sample_left raw_frame_sample_right currentText_sample
  timestamp_morning timestamp_later folder_morning folder_later

lemma length_timestamp_same_date:
  assumes "valid_datetime d" "valid_datetime d'" "same_date d d'"
  shows "length (strftime d ''%Y%m%d_%H%M%S'') = length (strftime d' ''%Y%m%d_%H%M%S'')"
proof -
  have "hour d < 100" "minute d < 100" "second d < 100"
    "hour d' < 100" "minute d' < 100" "second d' < 100"
    using assms(1,2) by (simp_all add: valid_datetime_def)
  then show ?thesis
    using assms(3) by (simp add: strftime_timestamp same_date_def length_zero_pad_2)
qed

lemma folder_same_date:
  "same_date d d' \<Longrightarrow> strftime d ''%d_%m_%Y'' = strftime d' ''%d_%m_%Y''"
  by (simp add: strftime_folder same_date_def)

lemma file_names_differ: "file_name m ''left'' ts \<noteq> file_name m ''right'' ts"
  by (simp add: file_name_def)

lemma capture_images_plain:
  fixes now1 now2 a w
  defines "r \<equiv> capture_images now1 now2 a w"
    and "fo \<equiv> strftime now2 ''%d_%m_%Y''"
    and "ts \<equiv> strftime now1 ''%Y%m%d_%H%M%S''"
    and "m \<equiv> currentText (dropdown a)"
  defines "lloc \<equiv> date_folder w fo @ [file_name m ''left'' ts]"
    and "rloc \<equiv> date_folder w fo @ [file_name m ''right'' ts]"
  assumes ok: "fst r = None" and plain: "CHR ''/'' \<notin> set m"
  shows "written_files w (snd r) =
           (if raw_frame (left_thread a) \<noteq> None \<and> takes_file w lloc then [lloc] else [])
           @ (if raw_frame (right_thread a) \<noteq> None \<and> takes_file w rloc then [rloc] else [])"
    and "files (snd r) lloc =
           (if raw_frame (left_thread a) \<noteq> None \<and> takes_file w lloc
            then raw_frame (left_thread a) else files w lloc)"
    and "files (snd r) rloc =
           (if raw_frame (right_thread a) \<noteq> None \<and> takes_file w rloc
            then raw_frame (right_thread a) else files w rloc)"
proof -
  have ok': "fst (makedirs (''results/'' @ fo) w) = None"
    using ok unfolding r_def fo_def fst_capture_images .
  have sl: "stored_at (snd (makedirs (''results/'' @ fo) w)) (side_path fo m ''left'' ts) =
           (if takes_file w lloc then Some lloc else None)"
    unfolding fo_def ts_def lloc_def
    by (rule stored_at_plain) (use ok' plain in \<open>simp_all add: fo_def\<close>)
  have sr: "stored_at (snd (makedirs (''results/'' @ fo) w)) (side_path fo m ''right'' ts) =
           (if takes_file w rloc then Some rloc else None)"
    unfolding fo_def ts_def rloc_def
    by (rule stored_at_plain) (use ok' plain in \<open>simp_all add: fo_def\<close>)
  have ne: "lloc \<noteq> rloc" "rloc \<noteq> lloc"
    unfolding lloc_def rloc_def using file_names_differ [of m ts] by auto
  show "written_files w (snd r) =
           (if raw_frame (left_thread a) \<noteq> None \<and> takes_file w lloc then [lloc] else [])
           @ (if raw_frame (right_thread a) \<noteq> None \<and> takes_file w rloc then [rloc] else [])"
    using ok
    unfolding r_def written_files_capture_images
      sl [unfolded fo_def ts_def m_def] sr [unfolded fo_def ts_def m_def]
    by (simp split: option.splits)
  have f: "files (snd r) =
           (let fs1 = (case raw_frame (left_thread a) of
                         Some f \<Rightarrow> (case (if takes_file w lloc then Some lloc else None) of
                                      Some loc \<Rightarrow> (files w)(loc \<mapsto> f) | None \<Rightarrow> files w)
                       | None \<Rightarrow> files w)
            in case raw_frame (right_thread a) of
                 Some f \<Rightarrow> (case (if takes_file w rloc then Some rloc else None) of
                              Some loc \<Rightarrow> fs1(loc \<mapsto> f) | None \<Rightarrow> fs1)
               | None \<Rightarrow> fs1)"
    unfolding r_def capture_images_returned(3) [OF ok' [unfolded fo_def]]
      sl [unfolded fo_def ts_def m_def] sr [unfolded fo_def ts_def m_def] ..
  show "files (snd r) lloc =
           (if raw_frame (left_thread a) \<noteq> None \<and> takes_file w lloc
            then raw_frame (left_thread a) else files w lloc)"
    unfolding f using ne by (auto simp: Let_def split: option.splits)
  show "files (snd r) rloc =
           (if raw_frame (right_thread a) \<noteq> None \<and> takes_file w rloc
            then raw_frame (right_thread a) else files w rloc)"
    unfolding f using ne by (auto simp: Let_def split: option.splits)
qed

lemma empty_world_fields:
  "cwd empty_world = [''home'', ''op'']"
  "dirs empty_world = {[], [''home''], [''home'', ''op'']}"
  "files empty_world = Map.empty"
  "refuses empty_world = {}"
  "imwrites empty_world = []"
  "dialogs empty_world = []"
  by (simp_all add: empty_world_def)

lemma makedirs_empty_world:
  "makedirs ''results/07_03_2025'' empty_world =
     (None, empty_world\<lparr>dirs := {[''home'', ''op'', ''results'', ''07_03_2025''],
                                 [''home'', ''op'', ''results''], [], [''home''],
                                 [''home'', ''op'']}\<rparr>)"
  by (simp add: makedirs_def start_dir_def empty_world_fields insert_commute)

lemma makedirs_blocked_world:
  "makedirs ''results/07_03_2025'' blocked_world =
     (Some (NotADirectoryError ''results/07_03_2025''), blocked_world)"
  by (simp add: makedirs_def start_dir_def blocked_world_def empty_world_fields)

lemmas eval_simps =
  written_files_capture_images new_writes_capture_images new_dialogs_capture_images
  fst_capture_images sample_simps side_path_def makedirs_empty_world makedirs_blocked_world
  stored_at_def locate_def start_dir_def takes_file_def Let_def empty_world_fields

lemma dirs_capture_images:
  "dirs (snd (capture_images now1 now2 a w))
     = dirs (snd (makedirs (''results/'' @ strftime now2 ''%d_%m_%Y'') w))"
  and refuses_capture_images:
  "refuses (snd (capture_images now1 now2 a w)) = refuses w"
proof -
  have i: "dirs (snd (imwrite p f v)) = dirs v" "refuses (snd (imwrite p f v)) = refuses v"
    for p f v by (simp_all add: imwrite_effect)
  obtain e w0 where mk: "makedirs (''results/'' @ strftime now2 ''%d_%m_%Y'') w = (e, w0)"
    by (cases "makedirs (''results/'' @ strftime now2 ''%d_%m_%Y'') w")
  have w0: "refuses w0 = refuses w"
    using makedirs_keeps [of "''results/'' @ strftime now2 ''%d_%m_%Y''" w] mk by simp
  have mk': "makedirs (''results/'' @ strftime now2 ''%d_%m_%Y'') w = (e, w0) \<longleftrightarrow> True"
    using mk by simp
  show "dirs (snd (capture_images now1 now2 a w))
     = dirs (snd (makedirs (''results/'' @ strftime now2 ''%d_%m_%Y'') w))"
    by (cases e; cases "raw_frame (left_thread a)"; cases "raw_frame (right_thread a)")
      (simp_all add: capture_images_def Let_def mk' [simplified] exec_dialog_def i)
  show "refuses (snd (capture_images now1 now2 a w)) = refuses w"
    by (cases e; cases "raw_frame (left_thread a)"; cases "raw_frame (right_thread a)")
      (simp_all add: capture_images_def Let_def mk' [simplified] exec_dialog_def i w0)
qed

section \<open>The capture action\<close>

text \<open>
  Claim C1, as it stands, at the label \<open>wood/oak\<close> in a world without a directory \<open>wood\<close>
  in the date folder: both workers hold a frame, no file is written, and the dialog shown
  is the success dialog with both paths, not the warning.
\<close>

theorem success_dialog_without_file_counterexample:
  "raw_frame (left_thread (sample_app (Some frameA) (Some frameB) ''wood/oak'')) = Some frameA
   \<and> raw_frame (right_thread (sample_app (Some frameA) (Some frameB) ''wood/oak'')) = Some frameB
   \<and> written_files empty_world
        (snd (capture_images morning morning
                (sample_app (Some frameA) (Some frameB) ''wood/oak'') empty_world)) = []
   \<and> new_dialogs empty_world
        (snd (capture_images morning morning
                (sample_app (Some frameA) (Some frameB) ''wood/oak'') empty_world)) =
       [\<lparr>icon = Information, window_title = Title_success, text_literal = Text_saved,
         text_rest = ''results/07_03_2025/wood/oak_left_20250307_090500.png'' @ [CHR 0x0A]
                     @ ''results/07_03_2025/wood/oak_right_20250307_090500.png''\<rparr>]"
  by (simp add: eval_simps)

text \<open>
  Claim C1, amended. In every capture action in which \<open>os.makedirs\<close> returns, exactly one
  dialog is shown. When at least one worker holds a raw frame it is the success dialog, and
  its text is the paths handed to \<open>cv2.imwrite\<close> in this action, the left one before the
  right one, with a newline between them; when neither worker holds a raw frame it is the
  warning dialog. The listed paths are exactly the files written when the label has no
  slash and the date folder takes the files. When \<open>os.makedirs\<close> raises, no file is
  written and no dialog is shown.
\<close>

theorem capture_dialog_outcome:
  fixes now1 now2 a w
  defines "r \<equiv> capture_images now1 now2 a w"
    and "fo \<equiv> strftime now2 ''%d_%m_%Y''"
    and "ts \<equiv> strftime now1 ''%Y%m%d_%H%M%S''"
    and "m \<equiv> currentText (dropdown a)"
    and "left_held \<equiv> raw_frame (left_thread a) \<noteq> None"
    and "right_held \<equiv> raw_frame (right_thread a) \<noteq> None"
  shows "(fst r = None \<longrightarrow>
            new_writes w (snd r) =
              (if left_held then [side_path fo m ''left'' ts] else [])
              @ (if right_held then [side_path fo m ''right'' ts] else [])
          \<and> new_dialogs w (snd r) =
              [if \<not> left_held \<and> \<not> right_held
               then \<lparr>icon = Warning, window_title = Title_not_found,
                     text_literal = Text_cannot_save, text_rest = []\<rparr>
               else \<lparr>icon = Information, window_title = Title_success,
                     text_literal = Text_saved,
                     text_rest =
                       (if left_held then side_path fo m ''left'' ts else [])
                       @ (if left_held \<and> right_held then [CHR 0x0A] else [])
                       @ (if right_held then side_path fo m ''right'' ts else [])\<rparr>])
       \<and> (fst r = None \<and> CHR ''/'' \<notin> set m
            \<and> (left_held \<longrightarrow> takes_file w (date_folder w fo @ [file_name m ''left'' ts]))
            \<and> (right_held \<longrightarrow> takes_file w (date_folder w fo @ [file_name m ''right'' ts]))
          \<longrightarrow> written_files w (snd r) =
                (if left_held then [date_folder w fo @ [file_name m ''left'' ts]] else [])
                @ (if right_held then [date_folder w fo @ [file_name m ''right'' ts]] else []))
       \<and> (fst r \<noteq> None \<longrightarrow>
            new_writes w (snd r) = [] \<and> written_files w (snd r) = []
            \<and> new_dialogs w (snd r) = [])"
proof -
  have a: "new_writes w (snd r) =
              (if left_held then [side_path fo m ''left'' ts] else [])
              @ (if right_held then [side_path fo m ''right'' ts] else [])"
    if "fst r = None"
    using that unfolding r_def new_writes_capture_images fo_def ts_def m_def left_held_def
      right_held_def
    by (simp split: option.splits)
  have b: "new_dialogs w (snd r) =
              [if \<not> left_held \<and> \<not> right_held
               then \<lparr>icon = Warning, window_title = Title_not_found,
                     text_literal = Text_cannot_save, text_rest = []\<rparr>
               else \<lparr>icon = Information, window_title = Title_success,
                     text_literal = Text_saved,
                     text_rest =
                       (if left_held then side_path fo m ''left'' ts else [])
                       @ (if left_held \<and> right_held then [CHR 0x0A] else [])
                       @ (if right_held then side_path fo m ''right'' ts else [])\<rparr>]"
    if "fst r = None"
    using that unfolding r_def new_dialogs_capture_images fo_def ts_def m_def left_held_def
      right_held_def
    by simp
  have c: "written_files w (snd r) =
                (if left_held then [date_folder w fo @ [file_name m ''left'' ts]] else [])
                @ (if right_held then [date_folder w fo @ [file_name m ''right'' ts]] else [])"
    if "fst r = None" "CHR ''/'' \<notin> set m"
      "left_held \<longrightarrow> takes_file w (date_folder w fo @ [file_name m ''left'' ts])"
      "right_held \<longrightarrow> takes_file w (date_folder w fo @ [file_name m ''right'' ts])"
    using that(3,4)
      capture_images_plain(1) [OF that(1) [unfolded r_def] that(2) [unfolded m_def]]
    unfolding r_def fo_def ts_def m_def left_held_def right_held_def
    by simp
  have d: "new_writes w (snd r) = [] \<and> written_files w (snd r) = []
            \<and> new_dialogs w (snd r) = []"
    if "fst r \<noteq> None"
    using that unfolding r_def new_writes_capture_images written_files_capture_images
      new_dialogs_capture_images
    by simp
  from a b c d show ?thesis by blast
qed

theorem capture_dialog_outcome_witness:
  "fst (capture_images morning morning (sample_app (Some frameA) (Some frameB) ''oak'')
          empty_world) = None
   \<and> CHR ''/'' \<notin> set ''oak''
   \<and> takes_file empty_world
        [''home'', ''op'', ''results'', ''07_03_2025'', ''oak_left_20250307_090500.png'']
   \<and> takes_file empty_world
        [''home'', ''op'', ''results'', ''07_03_2025'', ''oak_right_20250307_090500.png'']
   \<and> new_dialogs empty_world
        (snd (capture_images morning morning (sample_app (Some frameA) (Some frameB) ''oak'')
                empty_world)) =
       [\<lparr>icon = Information, window_title = Title_success, text_literal = Text_saved,
         text_rest = ''results/07_03_2025/oak_left_20250307_090500.png'' @ [CHR 0x0A]
                     @ ''results/07_03_2025/oak_right_20250307_090500.png''\<rparr>]
   \<and> written_files empty_world
        (snd (capture_images morning morning (sample_app (Some frameA) (Some frameB) ''oak'')
                empty_world)) =
       [[''home'', ''op'', ''results'', ''07_03_2025'', ''oak_left_20250307_090500.png''],
        [''home'', ''op'', ''results'', ''07_03_2025'', ''oak_right_20250307_090500.png'']]
   \<and> fst (capture_images morning morning (sample_app (Some frameA) (Some frameB) ''oak'')
            blocked_world) \<noteq> None
   \<and> new_dialogs blocked_world
        (snd (capture_images morning morning (sample_app (Some frameA) (Some frameB) ''oak'')
                blocked_world)) = []"
proof -
  have ok: "fst (capture_images morning morning (sample_app (Some frameA) (Some frameB) ''oak'')
          empty_world) = None"
    by (simp add: eval_simps)
  have bad: "fst (capture_images morning morning (sample_app (Some frameA) (Some frameB) ''oak'')
            blocked_world) \<noteq> None"
    by (simp add: eval_simps)
  have tk: "takes_file empty_world
        [''home'', ''op'', ''results'', ''07_03_2025'', ''oak_left_20250307_090500.png'']"
    "takes_file empty_world
        [''home'', ''op'', ''results'', ''07_03_2025'', ''oak_right_20250307_090500.png'']"
    by (simp_all add: takes_file_def empty_world_def)
  show ?thesis
    using ok bad tk
      capture_dialog_outcome [of morning morning "sample_app (Some frameA) (Some frameB) ''oak''"
        empty_world]
      capture_dialog_outcome [of morning morning "sample_app (Some frameA) (Some frameB) ''oak''"
        blocked_world]
    by (simp add: sample_simps side_path_def file_name_def date_folder_def empty_world_def)
qed

text \<open>
  Claim C2, as it stands, in a world where \<open>results\<close> is a regular file: the left worker
  holds a raw frame, \<open>os.makedirs\<close> raises, and no file is written for the left side.
\<close>

theorem frame_held_without_file_counterexample:
  "raw_frame (left_thread (sample_app (Some frameA) None ''oak'')) = Some frameA
   \<and> fst (capture_images morning morning (sample_app (Some frameA) None ''oak'') blocked_world)
       = Some (NotADirectoryError ''results/07_03_2025'')
   \<and> written_files blocked_world
        (snd (capture_images morning morning (sample_app (Some frameA) None ''oak'')
                blocked_world)) = []
   \<and> new_writes blocked_world
        (snd (capture_images morning morning (sample_app (Some frameA) None ''oak'')
                blocked_world)) = []"
  by (simp add: eval_simps)

text \<open>
  Claim C2, amended. In every capture action in which \<open>os.makedirs\<close> returns, and for each
  side on its own, \<open>cv2.imwrite\<close> is called with that side's path if and only if that
  side's worker holds a raw frame; a side without one is passed over. When in addition the
  label has no slash, the file of a side is written if and only if its worker holds a raw
  frame and the date folder takes the file; it then holds that frame, and otherwise stays
  as it was. An action writes no more files than it makes calls, at most 2, and none when
  \<open>os.makedirs\<close> raises.
\<close>

theorem write_attempted_iff_frame_held:
  fixes now1 now2 a w
  defines "r \<equiv> capture_images now1 now2 a w"
    and "fo \<equiv> strftime now2 ''%d_%m_%Y''"
    and "ts \<equiv> strftime now1 ''%Y%m%d_%H%M%S''"
    and "m \<equiv> currentText (dropdown a)"
    and "left_held \<equiv> raw_frame (left_thread a) \<noteq> None"
    and "right_held \<equiv> raw_frame (right_thread a) \<noteq> None"
  defines "lloc \<equiv> date_folder w fo @ [file_name m ''left'' ts]"
    and "rloc \<equiv> date_folder w fo @ [file_name m ''right'' ts]"
  shows "(fst r = None \<longrightarrow>
            (side_path fo m ''left'' ts \<in> set (new_writes w (snd r)) \<longleftrightarrow> left_held)
          \<and> (side_path fo m ''right'' ts \<in> set (new_writes w (snd r)) \<longleftrightarrow> right_held)
          \<and> length (new_writes w (snd r)) =
              (if left_held then 1 else 0) + (if right_held then 1 else 0))
       \<and> (fst r = None \<and> CHR ''/'' \<notin> set m \<longrightarrow>
            (lloc \<in> set (written_files w (snd r)) \<longleftrightarrow> left_held \<and> takes_file w lloc)
          \<and> (rloc \<in> set (written_files w (snd r)) \<longleftrightarrow> right_held \<and> takes_file w rloc)
          \<and> set (written_files w (snd r)) \<subseteq> {lloc, rloc}
          \<and> files (snd r) lloc =
              (if left_held \<and> takes_file w lloc then raw_frame (left_thread a)
               else files w lloc)
          \<and> files (snd r) rloc =
              (if right_held \<and> takes_file w rloc then raw_frame (right_thread a)
               else files w rloc))
       \<and> length (written_files w (snd r)) \<le> length (new_writes w (snd r))
       \<and> length (new_writes w (snd r)) \<le> 2
       \<and> (fst r \<noteq> None \<longrightarrow>
            new_writes w (snd r) = [] \<and> written_files w (snd r) = []
            \<and> files (snd r) = files w)"
proof -
  have pne: "side_path fo m ''left'' ts \<noteq> side_path fo m ''right'' ts"
    by (simp add: side_path_def)
  have lne: "lloc \<noteq> rloc"
    unfolding lloc_def rloc_def using file_names_differ [of m ts] by auto
  have nw: "new_writes w (snd r) =
     (if fst r \<noteq> None then []
      else (if left_held then [side_path fo m ''left'' ts] else [])
           @ (if right_held then [side_path fo m ''right'' ts] else []))"
    unfolding r_def new_writes_capture_images fo_def ts_def m_def left_held_def right_held_def
    by (simp split: option.splits)
  have a: "(side_path fo m ''left'' ts \<in> set (new_writes w (snd r)) \<longleftrightarrow> left_held)
          \<and> (side_path fo m ''right'' ts \<in> set (new_writes w (snd r)) \<longleftrightarrow> right_held)
          \<and> length (new_writes w (snd r)) =
              (if left_held then 1 else 0) + (if right_held then 1 else 0)"
    if "fst r = None"
    using that pne unfolding nw by auto
  have b: "(lloc \<in> set (written_files w (snd r)) \<longleftrightarrow> left_held \<and> takes_file w lloc)
          \<and> (rloc \<in> set (written_files w (snd r)) \<longleftrightarrow> right_held \<and> takes_file w rloc)
          \<and> set (written_files w (snd r)) \<subseteq> {lloc, rloc}
          \<and> files (snd r) lloc =
              (if left_held \<and> takes_file w lloc then raw_frame (left_thread a)
               else files w lloc)
          \<and> files (snd r) rloc =
              (if right_held \<and> takes_file w rloc then raw_frame (right_thread a)
               else files w rloc)"
    if "fst r = None" "CHR ''/'' \<notin> set m"
    using lne
      capture_images_plain [OF that(1) [unfolded r_def] that(2) [unfolded m_def]]
    unfolding r_def fo_def ts_def m_def left_held_def right_held_def lloc_def rloc_def
    by auto
  have wf: "length (written_files w (snd r)) \<le> length (new_writes w (snd r))"
    unfolding written_files_def new_writes_def List.map_filter_def
    using length_filter_le [of "\<lambda>x. snd x \<noteq> None" "drop (length (imwrites w)) (imwrites (snd r))"]
    by simp
  have c: "length (new_writes w (snd r)) \<le> 2"
    unfolding nw by simp
  have d: "new_writes w (snd r) = [] \<and> written_files w (snd r) = []
            \<and> files (snd r) = files w"
    if "fst r \<noteq> None"
  proof -
    have "fst (makedirs (''results/'' @ strftime now2 ''%d_%m_%Y'') w) \<noteq> None"
      using that unfolding r_def fst_capture_images .
    from capture_images_raised(3) [OF this] that show ?thesis
      unfolding r_def new_writes_capture_images written_files_capture_images by simp
  qed
  from a b wf c d show ?thesis by blast
qed

theorem write_attempted_iff_frame_held_witness:
  "fst (capture_images morning morning (sample_app None (Some frameB) ''oak'') empty_world)
     = None
   \<and> CHR ''/'' \<notin> set ''oak''
   \<and> new_writes empty_world
        (snd (capture_images morning morning (sample_app None (Some frameB) ''oak'')
                empty_world)) =
       [''results/07_03_2025/oak_right_20250307_090500.png'']
   \<and> files (snd (capture_images morning morning (sample_app None (Some frameB) ''oak'')
                   empty_world))
       [''home'', ''op'', ''results'', ''07_03_2025'', ''oak_right_20250307_090500.png'']
       = Some frameB
   \<and> files (snd (capture_images morning morning (sample_app None (Some frameB) ''oak'')
                   empty_world))
       [''home'', ''op'', ''results'', ''07_03_2025'', ''oak_left_20250307_090500.png'']
       = None"
proof -
  have ok: "fst (capture_images morning morning (sample_app None (Some frameB) ''oak'')
          empty_world) = None"
    by (simp add: eval_simps)
  have nw: "new_writes empty_world
        (snd (capture_images morning morning (sample_app None (Some frameB) ''oak'')
                empty_world)) =
       [''results/07_03_2025/oak_right_20250307_090500.png'']"
    by (simp add: eval_simps)
  have tk: "takes_file empty_world
        [''home'', ''op'', ''results'', ''07_03_2025'', ''oak_right_20250307_090500.png'']"
    by (simp add: takes_file_def empty_world_def)
  have e: "files empty_world
       [''home'', ''op'', ''results'', ''07_03_2025'', ''oak_left_20250307_090500.png''] = None"
    by (simp add: empty_world_def)
  show ?thesis
    using ok nw tk e
      write_attempted_iff_frame_held
        [where ?now1.0 = morning and ?now2.0 = morning
           and a = "sample_app None (Some frameB) ''oak''" and w = empty_world]
    by (simp add: sample_simps file_name_def date_folder_def empty_world_def)
qed

(*CAPTURE2*)
text \<open>
  Claim C3. Every path written by a capture action is
  \<open>results/<folder>/<material>_<side>_<timestamp>.png\<close>: the folder is the date of the
  clock reading taken for it as DD_MM_YYYY (two, two and four digits), the time stamp is the
  clock reading taken for it as YYYYMMDD_HHMMSS (fifteen characters), the material is the
  text selected in the drop-down, and the side is \<open>left\<close> or \<open>right\<close>.
\<close>

theorem written_path_format:
  fixes now1 now2 a w
  defines "timestamp \<equiv>
      zero_pad 4 (year now1) @ zero_pad 2 (month now1) @ zero_pad 2 (day now1) @ ''_'' @
      zero_pad 2 (hour now1) @ zero_pad 2 (minute now1) @ zero_pad 2 (second now1)"
    and "folder \<equiv>
      zero_pad 2 (day now2) @ ''_'' @ zero_pad 2 (month now2) @ ''_'' @ zero_pad 4 (year now2)"
    and "material \<equiv> currentText (dropdown a)"
  assumes valid: "valid_datetime now1" "valid_datetime now2"
    and p: "p \<in> set (new_writes w (snd (capture_images now1 now2 a w)))"
  shows "(p = ''results/'' @ folder @ ''/'' @ material @ ''_'' @ ''left'' @ ''_'' @ timestamp @ ''.png''
          \<or> p = ''results/'' @ folder @ ''/'' @ material @ ''_'' @ ''right'' @ ''_'' @ timestamp @ ''.png'')
       \<and> length (zero_pad 4 (year now1)) = 4 \<and> length (zero_pad 2 (month now1)) = 2
       \<and> length (zero_pad 2 (day now1)) = 2 \<and> length (zero_pad 2 (hour now1)) = 2
       \<and> length (zero_pad 2 (minute now1)) = 2 \<and> length (zero_pad 2 (second now1)) = 2
       \<and> length (zero_pad 2 (day now2)) = 2 \<and> length (zero_pad 2 (month now2)) = 2
       \<and> length (zero_pad 4 (year now2)) = 4
       \<and> length timestamp = 15 \<and> length folder = 10
       \<and> set timestamp \<subseteq> set ''0123456789_'' \<and> set folder \<subseteq> set ''0123456789_''"
proof -
  note b1 = valid_datetime_bounds [OF valid(1)] and b2 = valid_datetime_bounds [OF valid(2)]
  have l1: "length (zero_pad 4 (year now1)) = 4" "length (zero_pad 2 (month now1)) = 2"
    "length (zero_pad 2 (day now1)) = 2" "length (zero_pad 2 (hour now1)) = 2"
    "length (zero_pad 2 (minute now1)) = 2" "length (zero_pad 2 (second now1)) = 2"
    using b1 by (simp_all add: length_zero_pad_2 length_zero_pad_4)
  have l2: "length (zero_pad 2 (day now2)) = 2" "length (zero_pad 2 (month now2)) = 2"
    "length (zero_pad 4 (year now2)) = 4"
    using b2 by (simp_all add: length_zero_pad_2 length_zero_pad_4)
  have ts: "strftime now1 ''%Y%m%d_%H%M%S'' = timestamp"
    unfolding timestamp_def by (rule strftime_timestamp)
  have fo: "strftime now2 ''%d_%m_%Y'' = folder"
    unfolding folder_def by (rule strftime_folder)
  have "p = side_path folder material ''left'' timestamp
      \<or> p = side_path folder material ''right'' timestamp"
    using p unfolding new_writes_capture_images ts fo material_def
    by (auto split: option.splits if_splits)
  then have shape: "p = ''results/'' @ folder @ ''/'' @ material @ ''_'' @ ''left'' @ ''_'' @ timestamp @ ''.png''
          \<or> p = ''results/'' @ folder @ ''/'' @ material @ ''_'' @ ''right'' @ ''_'' @ timestamp @ ''.png''"
    by (simp add: side_path_def)
  have lt: "length timestamp = 15" unfolding timestamp_def using l1 by simp
  have lf: "length folder = 10" unfolding folder_def using l2 by simp
  have dg: "\<And>k n. set (zero_pad k n) \<subseteq> set ''0123456789_''"
    using zero_pad_digits by fastforce
  have st: "set timestamp \<subseteq> set ''0123456789_''"
    unfolding timestamp_def set_append using dg by (simp only: Un_subset_iff) simp
  have sf: "set folder \<subseteq> set ''0123456789_''"
    unfolding folder_def set_append using dg by (simp only: Un_subset_iff) simp
  show ?thesis using shape l1 l2 lt lf st sf by simp
qed

theorem written_path_format_witness:
  "valid_datetime later \<and> valid_datetime morning
   \<and> ''results/07_03_2025/oak_right_20250307_090501.png''
       \<in> set (new_writes empty_world
            (snd (capture_images later morning (sample_app None (Some frameB) ''oak'')
                    empty_world)))
   \<and> length ''20250307_090501'' = 15 \<and> length ''07_03_2025'' = 10"
proof -
  have v: "valid_datetime later" "valid_datetime morning"
    by (simp_all add: valid_datetime_def later_def morning_def)
  have p: "''results/07_03_2025/oak_right_20250307_090501.png''
       \<in> set (new_writes empty_world
            (snd (capture_images later morning (sample_app None (Some frameB) ''oak'')
                    empty_world)))"
    by (simp add: eval_simps)
  show ?thesis
    using v p written_path_format [OF v p] by simp
qed


text \<open>
  Claim C8, as it stands, at a second action with the label \<open>../x\<close>: its file is written
  into \<open>results\<close>, the directory above the date folder, and not into the date folder.
\<close>

theorem second_capture_outside_folder_counterexample:
  "valid_datetime morning \<and> valid_datetime later
   \<and> same_date morning later
   \<and> strftime morning ''%Y%m%d_%H%M%S'' \<noteq> strftime later ''%Y%m%d_%H%M%S''
   \<and> written_files empty_world
        (snd (capture_images morning morning (sample_app (Some frameA) None ''oak'')
                empty_world))
       = [[''home'', ''op'', ''results'', ''07_03_2025'', ''oak_left_20250307_090500.png'']]
   \<and> written_files
        (snd (capture_images morning morning (sample_app (Some frameA) None ''oak'')
                empty_world))
        (snd (capture_images later later (sample_app (Some frameB) None ''../x'')
                (snd (capture_images morning morning (sample_app (Some frameA) None ''oak'')
                        empty_world))))
       = [[''home'', ''op'', ''results'', ''x_left_20250307_090501.png'']]"
proof -
  define w1 where
    "w1 = snd (capture_images morning morning (sample_app (Some frameA) None ''oak'')
                 empty_world)"
  have v: "valid_datetime morning" "valid_datetime later"
    by (simp_all add: valid_datetime_def later_def morning_def)
  have d: "same_date morning later"
    by (simp add: same_date_def later_def morning_def)
  have n: "strftime morning ''%Y%m%d_%H%M%S'' \<noteq> strftime later ''%Y%m%d_%H%M%S''"
    by (simp add: sample_simps)
  have first: "written_files empty_world w1
       = [[''home'', ''op'', ''results'', ''07_03_2025'', ''oak_left_20250307_090500.png'']]"
    unfolding w1_def by (simp add: eval_simps)
  have f: "cwd w1 = [''home'', ''op'']" "refuses w1 = {}"
    "dirs w1 = {[''home'', ''op'', ''results'', ''07_03_2025''],
                [''home'', ''op'', ''results''], [], [''home''], [''home'', ''op'']}"
    unfolding w1_def
    by (simp_all add: cwd_capture_images refuses_capture_images dirs_capture_images
        sample_simps makedirs_empty_world empty_world_fields)
  have mk: "makedirs ''results/07_03_2025'' w1 = (None, w1)"
    by (simp add: makedirs_def start_dir_def f)
  have second: "written_files w1
        (snd (capture_images later later (sample_app (Some frameB) None ''../x'') w1))
       = [[''home'', ''op'', ''results'', ''x_left_20250307_090501.png'']]"
    by (simp add: written_files_capture_images fst_capture_images sample_simps side_path_def
        mk stored_at_def locate_def start_dir_def takes_file_def Let_def f)
  show ?thesis
    using v d n first second unfolding w1_def by simp
qed


(*C8*)
text \<open>
  Claim C10. The selected material label goes into the path as it is, with nothing
  replaced or escaped: for any label at all, the paths handed to \<open>cv2.imwrite\<close> are the
  plain concatenations \<open>results/<folder>/<label>_<side>_<timestamp>.png\<close>, and the label
  stands in each path unchanged, right behind the folder. (When \<open>os.makedirs\<close> raises, no
  path is built.)
\<close>

theorem label_interpolated_verbatim:
  fixes now1 now2 a w
  defines "label \<equiv> items (dropdown a) ! currentIndex (dropdown a)"
    and "folder \<equiv> strftime now2 ''%d_%m_%Y''"
    and "timestamp \<equiv> strftime now1 ''%Y%m%d_%H%M%S''"
  assumes sel: "currentIndex (dropdown a) < length (items (dropdown a))"
  shows "new_writes w (snd (capture_images now1 now2 a w)) =
           (if fst (capture_images now1 now2 a w) \<noteq> None then []
            else (if raw_frame (left_thread a) \<noteq> None
                  then [''results/'' @ folder @ ''/'' @ label @ ''_left_'' @ timestamp @ ''.png'']
                  else [])
               @ (if raw_frame (right_thread a) \<noteq> None
                  then [''results/'' @ folder @ ''/'' @ label @ ''_right_'' @ timestamp @ ''.png'']
                  else []))
       \<and> (\<forall>p \<in> set (new_writes w (snd (capture_images now1 now2 a w))).
            take (length label) (drop (length (''results/'' @ folder @ ''/'')) p) = label)"
proof -
  have ct: "currentText (dropdown a) = label"
    using sel by (simp add: currentText_def label_def)
  have nw: "new_writes w (snd (capture_images now1 now2 a w)) =
           (if fst (capture_images now1 now2 a w) \<noteq> None then []
            else (if raw_frame (left_thread a) \<noteq> None
                  then [''results/'' @ folder @ ''/'' @ label @ ''_left_'' @ timestamp @ ''.png'']
                  else [])
               @ (if raw_frame (right_thread a) \<noteq> None
                  then [''results/'' @ folder @ ''/'' @ label @ ''_right_'' @ timestamp @ ''.png'']
                  else []))"
    unfolding new_writes_capture_images ct folder_def timestamp_def
    by (simp add: side_path_def split: option.splits)
  have mid: "take (length label) (drop (length (''results/'' @ folder @ ''/''))
               ((''results/'' @ folder @ ''/'') @ label @ rest)) = label" for rest
    by (simp only: drop_append length_append diff_self_eq_0 drop_all order_refl drop_0
        append_Nil take_append take_all take_0 append_Nil2 minus_nat.diff_0)
  have "take (length label) (drop (length (''results/'' @ folder @ ''/'')) p) = label"
    if "p \<in> set (new_writes w (snd (capture_images now1 now2 a w)))" for p
  proof -
    from that have "p = (''results/'' @ folder @ ''/'') @ label @ (''_left_'' @ timestamp @ ''.png'')
       \<or> p = (''results/'' @ folder @ ''/'') @ label @ (''_right_'' @ timestamp @ ''.png'')"
      unfolding nw by (auto split: if_splits)
    then show ?thesis using mid by metis
  qed
  with nw show ?thesis by blast
qed

theorem label_interpolated_verbatim_witness:
  "currentIndex (dropdown (sample_app (Some frameA) (Some frameB) ''../a b/c:d''))
     < length (items (dropdown (sample_app (Some frameA) (Some frameB) ''../a b/c:d'')))
   \<and> new_writes empty_world
        (snd (capture_images morning morning
                (sample_app (Some frameA) (Some frameB) ''../a b/c:d'') empty_world))
       = [''results/07_03_2025/../a b/c:d_left_20250307_090500.png'',
          ''results/07_03_2025/../a b/c:d_right_20250307_090500.png'']"
proof -
  have sel: "currentIndex (dropdown (sample_app (Some frameA) (Some frameB) ''../a b/c:d''))
     < length (items (dropdown (sample_app (Some frameA) (Some frameB) ''../a b/c:d'')))"
    by (simp add: sample_app_def)
  have it: "items (dropdown (sample_app (Some frameA) (Some frameB) ''../a b/c:d''))
       ! currentIndex (dropdown (sample_app (Some frameA) (Some frameB) ''../a b/c:d''))
     = ''../a b/c:d''"
    by (simp add: sample_app_def)
  have ok: "fst (capture_images morning morning
                (sample_app (Some frameA) (Some frameB) ''../a b/c:d'') empty_world) = None"
    by (simp add: eval_simps)
  show ?thesis
    using sel ok label_interpolated_verbatim [OF sel, of empty_world morning morning]
    unfolding it by (simp add: sample_simps)
qed

section \<open>The capture worker\<close>

text \<open>
  Claim C6. In a pass of a running worker's loop whose read fails, nothing is published
  and nothing is stored: the raw frame, the emitted signals and the device handle are as
  before, only the count of reads has gone up. No error arises, the worker is still in its
  loop with the flag set, and the passes that follow go on from there.
\<close>

theorem failed_read_is_skipped:
  assumes "phase vt = Running" and "running vt"
  shows "raw_frame (run [None] vt) = raw_frame vt
       \<and> emitted (run [None] vt) = emitted vt
       \<and> phase (run [None] vt) = Running
       \<and> running (run [None] vt)
       \<and> cap_open (run [None] vt) = cap_open vt
       \<and> run [None] vt = vt\<lparr>reads := Suc (reads vt)\<rparr>
       \<and> run (None # rs) vt = run rs (run [None] vt)"
  using assms by (simp add: run_def run_loop_Cons run_loop_Nil loop_body_def)

theorem failed_read_is_skipped_witness:
  "phase (start (VideoThread (PStr ''rtsp://cam''))) = Running
   \<and> running (start (VideoThread (PStr ''rtsp://cam'')))
   \<and> raw_frame (run [None] (start (VideoThread (PStr ''rtsp://cam'')))) = None
   \<and> emitted (run [None] (start (VideoThread (PStr ''rtsp://cam'')))) = []
   \<and> phase (run [None] (start (VideoThread (PStr ''rtsp://cam'')))) = Running
   \<and> raw_frame (run [None, Some [[(1, 2, 3)]]] (start (VideoThread (PStr ''rtsp://cam''))))
       = Some [[(1, 2, 3)]]"
  using failed_read_is_skipped [of "start (VideoThread (PStr ''rtsp://cam''))" "[Some [[(1, 2, 3)]]]"]
  by (simp add: start_def VideoThread_def run_def run_loop_Cons run_loop_Nil loop_body_def)

(*WORKER*)
section \<open>Configuration loading\<close>

text \<open>
  Neither loader ever raises. A \<open>materials.json\<close> whose top level is not a mapping ends in
  the handler of its loader, since the \<open>get\<close> is inside the \<open>try\<close>. Files that are
  mappings without the expected keys give an empty drop-down and empty sources.
\<close>

lemma loaders_never_raise:
  "(\<exists>v out'. load_material_types rd filepath out = Inr (v, out'))
   \<and> (\<exists>v out'. load_camera_config rd filepath out = Inr (v, out'))"
  by (simp add: load_material_types_def load_camera_config_def and_then_def
      split: sum.splits)

lemma load_material_types_not_mapping:
  "rd filepath = Inr v \<Longrightarrow> \<forall>kvs. v \<noteq> PDict kvs \<Longrightarrow>
     load_material_types rd filepath out =
       Inr (PList [PStr ''unknown''],
            out @ [''Error loading material types: object has no attribute get''])"
  by (cases v) (simp_all add: load_material_types_def and_then_def py_get_def)

lemma startup_missing_keys:
  "rd ''config/materials.json'' = Inr (PDict []) \<Longrightarrow>
   rd ''config/cameras.json'' = Inr (PDict []) \<Longrightarrow>
     init_app rd out =
       Inr (\<lparr>material_types = PList [], cameras_config = PDict [],
             dropdown = \<lparr>items = [], currentIndex = 0\<rparr>,
             left_thread = start (VideoThread (PStr [])),
             right_thread = start (VideoThread (PStr []))\<rparr>, out)"
  by (simp add: init_app_def load_material_types_def load_camera_config_def and_then_def
      py_get_def addItems_def)

text \<open>
  Claim C4. When opening or parsing the file raises an error, whichever it is, each loader
  prints one line with the error and returns its default, the list with \<open>unknown\<close> for the
  materials and the empty mapping for the cameras; nothing is raised to the caller.
\<close>

theorem loaders_fall_back_on_error:
  assumes "rd filepath = Inl e"
  shows "load_material_types rd filepath out =
           Inr (PList [PStr ''unknown''],
                out @ [''Error loading material types: '' @ str_exc e])
       \<and> load_camera_config rd filepath out =
           Inr (PDict [], out @ [''Error loading camera config: '' @ str_exc e])"
  using assms by (simp add: load_material_types_def load_camera_config_def and_then_def)

theorem loaders_fall_back_on_error_witness:
  "no_files ''config/materials.json'' = Inl (OSError ''No such file or directory'')
   \<and> load_material_types no_files ''config/materials.json'' [] =
        Inr (PList [PStr ''unknown''],
             [''Error loading material types: No such file or directory''])
   \<and> load_camera_config no_files ''config/materials.json'' [] =
        Inr (PDict [], [''Error loading camera config: No such file or directory''])"
proof -
  have h: "no_files ''config/materials.json'' = Inl (OSError ''No such file or directory'')"
    by (simp add: no_files_def)
  show ?thesis
    using h
      loaders_fall_back_on_error
        [of no_files "''config/materials.json''" "OSError ''No such file or directory''" "[]"]
    by simp
qed

text \<open>
  Claim C5, at a \<open>cameras.json\<close> that holds a JSON array. The camera loader hands the array
  back as it is and prints nothing, and start-up then ends in the \<open>AttributeError\<close> of
  \<open>cameras_config.get\<close>: the failure does reach the loader's caller.
\<close>

theorem startup_raises_on_array_cameras:
  "load_camera_config array_cameras ''config/cameras.json'' [] =
     Inr (PList [PStr ''rtsp://left'', PStr ''rtsp://right''], [])
   \<and> init_app array_cameras [] = Inl (AttributeError ''object has no attribute get'')"
  by (simp add: init_app_def load_material_types_def load_camera_config_def and_then_def
      array_cameras_def py_get_def addItems_def)



end
